theory Spec2Isabelle
  imports Complex_Main
begin

section \<open>Strings\<close>

text \<open>
  Python strings are modelled as \<^typ>\<open>string\<close>, one \<^typ>\<open>char\<close> per character. File names and
  the document are taken to be ASCII text, so decoding and encoding a text file in UTF-8 is
  the identity and \<open>str.lower\<close> only touches the letters \<open>A\<close> to \<open>Z\<close>.
\<close>

definition lower_char :: "char \<Rightarrow> char" where
  "lower_char c =
     (case map_of (zip ''ABCDEFGHIJKLMNOPQRSTUVWXYZ'' ''abcdefghijklmnopqrstuvwxyz'') c of
        Some d \<Rightarrow> d
      | None \<Rightarrow> c)"

definition lower :: "string \<Rightarrow> string" where
  "lower s = map lower_char s"

text \<open>\<open>s.endswith(suf)\<close> and \<open>s.endswith((suf1, suf2, ...))\<close>.\<close>

definition endswith :: "string \<Rightarrow> string \<Rightarrow> bool" where
  "endswith s suf = (length suf \<le> length s \<and> drop (length s - length suf) s = suf)"

definition endswith_any :: "string \<Rightarrow> string list \<Rightarrow> bool" where
  "endswith_any s sufs = list_ex (endswith s) sufs"

definition startswith :: "string \<Rightarrow> string \<Rightarrow> bool" where
  "startswith s pre = (take (length pre) s = pre)"

text \<open>\<open>sub in s\<close>: \<open>sub\<close> occurs in \<open>s\<close> as a contiguous substring.\<close>

fun str_in :: "string \<Rightarrow> string \<Rightarrow> bool" where
  "str_in sub [] = (sub = [])"
| "str_in sub (c # cs) = (startswith (c # cs) sub \<or> str_in sub cs)"

text \<open>\<open>s.lstrip('#')\<close> removes every leading \<open>#\<close>.\<close>

definition lstrip_hash :: "string \<Rightarrow> string" where
  "lstrip_hash s = dropWhile (\<lambda>c. c = CHR ''#'') s"

text \<open>\<open>s.split('\n')\<close> (never an empty list) and \<open>'\n'.join(xs)\<close>.\<close>

fun split_nl :: "string \<Rightarrow> string list" where
  "split_nl [] = [[]]"
| "split_nl (c # cs) =
     (if c = CHR 0x0A then [] # split_nl cs
      else (case split_nl cs of l # ls \<Rightarrow> (c # l) # ls | [] \<Rightarrow> [[c]]))"

fun join_nl :: "string list \<Rightarrow> string" where
  "join_nl [] = []"
| "join_nl [l] = l"
| "join_nl (l # m # ls) = l @ CHR 0x0A # join_nl (m # ls)"

section \<open>Errors and the file system\<close>

text \<open>
  The exceptions the script can raise. \<open>ValueError\<close> carries its message, which tells the
  script's own ``no suitable images'' error from the one \<open>int(..., 16)\<close> raises.
\<close>

datatype error =
    FileNotFoundError
  | NotADirectoryError
  | IsADirectoryError
  | FileExistsError
  | UnidentifiedImageError
  | ValueError string

definition bind_err :: "error + 'a \<Rightarrow> ('a \<Rightarrow> error + 'b) \<Rightarrow> error + 'b" where
  "bind_err m f = (case m of Inl e \<Rightarrow> Inl e | Inr x \<Rightarrow> f x)"

text \<open>
  The file system maps a path, as the script writes it relative to its working directory, to
  a regular file with its bytes or to a directory with its entry names in the order
  \<open>os.listdir\<close> returns them. The script never lists a directory it writes into, so writing a
  file leaves the entry lists alone.
\<close>

datatype node = File string | Dir "string list"

type_synonym fs = "string \<rightharpoonup> node"

definition path_exists :: "fs \<Rightarrow> string \<Rightarrow> bool" where
  "path_exists fs p = (fs p \<noteq> None)"

definition is_file :: "fs \<Rightarrow> string \<Rightarrow> bool" where
  "is_file fs p = (case fs p of Some (File _) \<Rightarrow> True | _ \<Rightarrow> False)"

definition is_dir :: "fs \<Rightarrow> string \<Rightarrow> bool" where
  "is_dir fs p = (case fs p of Some (Dir _) \<Rightarrow> True | _ \<Rightarrow> False)"

definition listdir :: "fs \<Rightarrow> string \<Rightarrow> error + string list" where
  "listdir fs p =
     (case fs p of
        None \<Rightarrow> Inl FileNotFoundError
      | Some (File _) \<Rightarrow> Inl NotADirectoryError
      | Some (Dir names) \<Rightarrow> Inr names)"

definition read_file :: "fs \<Rightarrow> string \<Rightarrow> error + string" where
  "read_file fs p =
     (case fs p of
        None \<Rightarrow> Inl FileNotFoundError
      | Some (Dir _) \<Rightarrow> Inl IsADirectoryError
      | Some (File bytes) \<Rightarrow> Inr bytes)"

definition write_file :: "fs \<Rightarrow> string \<Rightarrow> string \<Rightarrow> error + fs" where
  "write_file fs p bytes =
     (case fs p of
        Some (Dir _) \<Rightarrow> Inl IsADirectoryError
      | _ \<Rightarrow> Inr (fs(p \<mapsto> File bytes)))"

text \<open>\<open>os.makedirs(p, exist_ok=True)\<close> for a single path component.\<close>

definition makedirs_exist_ok :: "fs \<Rightarrow> string \<Rightarrow> error + fs" where
  "makedirs_exist_ok fs p =
     (case fs p of
        None \<Rightarrow> Inr (fs(p \<mapsto> Dir []))
      | Some (Dir _) \<Rightarrow> Inr fs
      | Some (File _) \<Rightarrow> Inl FileExistsError)"

text \<open>\<open>os.path.join(a, b)\<close> on POSIX, for a non-empty \<open>a\<close> without a trailing slash.\<close>

definition path_join :: "string \<Rightarrow> string \<Rightarrow> string" where
  "path_join a b = (if startswith b ''/'' then b else a @ ''/'' @ b)"

section \<open>Image Selector\<close>

text \<open>
  \<open>get_available_images\<close> reads the clock (\<open>datetime.now().month\<close>) and the \<open>Waifu\<close> folder;
  both are arguments here.
\<close>

definition image_suffixes :: "string list" where
  "image_suffixes = [''.jpg'', ''.jpeg'', ''.png'', ''.gif'']"

definition keep_image :: "nat \<Rightarrow> string \<Rightarrow> bool" where
  "keep_image current_month file =
     (endswith_any (lower file) image_suffixes
      \<and> \<not> (lower file = ''padoru.png'' \<and> current_month \<noteq> 12))"

definition get_available_images :: "fs \<Rightarrow> nat \<Rightarrow> error + string list" where
  "get_available_images fs current_month =
     (if \<not> path_exists fs ''Waifu'' then Inl FileNotFoundError
      else bind_err (listdir fs ''Waifu'') (\<lambda>files.
             Inr (filter (keep_image current_month) files)))"

section \<open>Images and the imaging and clustering libraries\<close>

text \<open>
  A decoded image: its mode, its size and its pixels, one list of channel values per pixel.
  \<open>Image.new(mode, (w, h), color)\<close> fills every pixel with \<open>color\<close>.
\<close>

record image =
  img_mode :: string
  img_width :: nat
  img_height :: nat
  img_pixels :: "nat list list"

definition image_new :: "string \<Rightarrow> nat \<times> nat \<Rightarrow> nat list \<Rightarrow> image" where
  "image_new m dims color =
     \<lparr>img_mode = m, img_width = fst dims, img_height = snd dims,
      img_pixels = replicate (fst dims * snd dims) color\<rparr>"

text \<open>
  The script calls Pillow, NumPy and scikit-learn; their code is not part of the
  repository, so the calls are fields of a record the model takes as an argument:
  \<^item> \<open>image_open\<close>: \<open>Image.open\<close> on a file's bytes, \<open>None\<close> when Pillow cannot identify them;
  \<^item> \<open>convert\<close>: \<open>img.convert(mode)\<close>;
  \<^item> \<open>resize\<close>: \<open>img.resize(size)\<close>;
  \<^item> \<open>save\<close>: the bytes \<open>img.save\<close> writes for a format;
  \<^item> \<open>kmeans\<close>: \<open>KMeans(n_clusters=k, random_state=42, n_init=10).fit(data).cluster_centers_\<close>,
    a list of float rows. A finite float is a real number and \<open>astype(int)\<close> truncates it
    exactly, so the rows are lists of \<^typ>\<open>real\<close>.
\<close>

record libs =
  image_open :: "string \<Rightarrow> image option"
  convert :: "string \<Rightarrow> image \<Rightarrow> image"
  resize :: "nat \<times> nat \<Rightarrow> image \<Rightarrow> image"
  save :: "string \<Rightarrow> image \<Rightarrow> string"
  kmeans :: "nat \<Rightarrow> nat list list \<Rightarrow> real list list"

section \<open>Palette Extractor\<close>

text \<open>\<open>astype(int)\<close>: truncation toward zero.\<close>

definition astype_int :: "real \<Rightarrow> int" where
  "astype_int x = (if 0 \<le> x then \<lfloor>x\<rfloor> else \<lceil>x\<rceil>)"

definition hex_char :: "nat \<Rightarrow> char" where
  "hex_char d = ''0123456789abcdef'' ! (d mod 16)"

fun hex_digits :: "nat \<Rightarrow> string" where
  "hex_digits n = (if n < 16 then [hex_char n] else hex_digits (n div 16) @ [hex_char (n mod 16)])"

declare hex_digits.simps [simp del]

text \<open>\<open>format(n, '02x')\<close>: lowercase hex, zero-padded to width 2, the sign counted in the width.\<close>

definition format_02x :: "int \<Rightarrow> string" where
  "format_02x n =
     (if n < 0 then CHR ''-'' # hex_digits (nat (- n))
      else replicate (2 - length (hex_digits (nat n))) CHR ''0'' @ hex_digits (nat n))"

definition hex_of_color :: "int list \<Rightarrow> string" where
  "hex_of_color color = CHR ''#'' # concat (map format_02x color)"

definition extract_dominant_colors :: "libs \<Rightarrow> fs \<Rightarrow> string \<Rightarrow> nat \<Rightarrow> error + string list" where
  "extract_dominant_colors L fs image_path num_colors =
     bind_err (read_file fs image_path) (\<lambda>bytes.
     case image_open L bytes of
       None \<Rightarrow> Inl UnidentifiedImageError
     | Some img0 \<Rightarrow>
         let img = resize L (150, 150) (convert L ''RGB'' img0);
             data = img_pixels img;
             centers = kmeans L num_colors data;
             colors = map (map astype_int) centers
         in Inr (map hex_of_color colors))"

section \<open>Swatch Renderer\<close>

text \<open>
  \<open>int(s, 16)\<close> on a slice of the colour string. The slices the script produces itself are
  hex digits; Python also accepts a sign, surrounding blanks, underscores and an \<open>0x\<close>
  prefix, which never reach this call from \<open>extract_dominant_colors\<close> with channels in
  range and which the model rejects like any other malformed slice.
\<close>

definition hex_val :: "char \<Rightarrow> nat option" where
  "hex_val c = map_of (zip ''0123456789abcdefABCDEF''
                 [0, 1, 2, 3, 4, 5, 6, 7, 8, 9, 10, 11, 12, 13, 14, 15, 10, 11, 12, 13, 14, 15]) c"

definition int16 :: "string \<Rightarrow> error + nat" where
  "int16 s =
     (if s \<noteq> [] \<and> list_all (\<lambda>c. hex_val c \<noteq> None) s
      then Inr (foldl (\<lambda>acc c. 16 * acc + the (hex_val c)) 0 s)
      else Inl (ValueError ''invalid literal for int() with base 16''))"

text \<open>\<open>s[i:j]\<close> for \<open>0 \<le> i \<le> j\<close>.\<close>

definition slice :: "string \<Rightarrow> nat \<Rightarrow> nat \<Rightarrow> string" where
  "slice s i j = take (j - i) (drop i s)"

definition create_color_image ::
  "libs \<Rightarrow> fs \<Rightarrow> string \<Rightarrow> nat \<Rightarrow> nat \<Rightarrow> error + (string \<times> fs)" where
  "create_color_image L fs hex_color0 width height =
     (let hex_color = lstrip_hash hex_color0 in
      bind_err (int16 (slice hex_color 0 2)) (\<lambda>r.
      bind_err (int16 (slice hex_color 2 4)) (\<lambda>g.
      bind_err (int16 (slice hex_color 4 6)) (\<lambda>b.
      let img = image_new ''RGB'' (width, height) [r, g, b] in
      bind_err (makedirs_exist_ok fs ''img'') (\<lambda>fs1.
      let img_path = ''img/'' @ hex_color @ ''.png'' in
      bind_err (write_file fs1 img_path (save L ''PNG'' img)) (\<lambda>fs2.
      Inr (img_path, fs2)))))))"

section \<open>Document Updater\<close>

text \<open>
  \<open>open(path, 'r')\<close> reads in universal-newlines mode: \<open>\r\n\<close> and a lone \<open>\r\<close> arrive as
  \<open>\n\<close>. The flag says that the previous character was a \<open>\r\<close>. Writing on POSIX leaves
  \<open>\n\<close> as it is.
\<close>

fun universal_newlines :: "bool \<Rightarrow> string \<Rightarrow> string" where
  "universal_newlines prev_cr [] = []"
| "universal_newlines prev_cr (c # cs) =
     (if c = CHR 0x0D then CHR 0x0A # universal_newlines True cs
      else if c = CHR 0x0A \<and> prev_cr then universal_newlines False cs
      else c # universal_newlines False cs)"

definition read_text :: "fs \<Rightarrow> string \<Rightarrow> error + string" where
  "read_text fs p = bind_err (read_file fs p) (\<lambda>bytes. Inr (universal_newlines False bytes))"

definition old_img_line_pattern :: string where
  \<open>old_img_line_pattern = ''<img src="cropped.jpg"''\<close>

definition new_img_line :: string where
  \<open>new_img_line = ''<img src="cropped.jpg" alt="Unfortunately I didn't find the author of the pic, feel to open a pull request if found" width="320" />''\<close>

definition color_palette_marker :: string where
  \<open>color_palette_marker = ''<p align="center">''\<close>

text \<open>The \<open>for\<close> loop with \<open>break\<close>: the first line that contains the pattern is overwritten.\<close>

fun replace_img_line :: "string list \<Rightarrow> string list" where
  "replace_img_line [] = []"
| "replace_img_line (line # rest) =
     (if str_in old_img_line_pattern line then new_img_line # rest
      else line # replace_img_line rest)"

definition color_img :: "string \<Rightarrow> string" where
  \<open>color_img color =
     ''<img alt="'' @ color
     @ ''" src="https://raw.githubusercontent.com/TryKatChup/TryKatChup/main/img/''
     @ lstrip_hash color @ ''.png" width="25" height="20" />''\<close>

text \<open>The loop over the colours: a swatch file and an \<open>img\<close> tag for each, in order.\<close>

fun color_loop :: "libs \<Rightarrow> fs \<Rightarrow> string list \<Rightarrow> string list \<Rightarrow> error + (string list \<times> fs)" where
  "color_loop L fs [] color_imgs = Inr (color_imgs, fs)"
| "color_loop L fs (color # colors) color_imgs =
     bind_err (create_color_image L fs color 25 20) (\<lambda>(img_path, fs1).
     color_loop L fs1 colors (color_imgs @ [color_img color]))"

definition new_color_palette_line :: "string list \<Rightarrow> string" where
  \<open>new_color_palette_line color_imgs =
     ''<p align="center">'' @ [CHR 0x0A] @ concat color_imgs @ [CHR 0x0A] @ ''</p>''\<close>

text \<open>The inner \<open>while\<close>: the first index from \<open>i\<close> on whose line contains \<open></p>\<close>, else the length.\<close>

function skip_to_close :: "string list \<Rightarrow> nat \<Rightarrow> nat" where
  "skip_to_close lines i =
     (if i < length lines \<and> \<not> str_in ''</p>'' (lines ! i) then skip_to_close lines (i + 1)
      else i)"
  by pat_completeness auto
termination
  by (relation "measure (\<lambda>(lines, i). length lines - i)") auto

declare skip_to_close.simps [simp del]

text \<open>
  The outer \<open>while\<close>, with the loop variables \<open>i\<close>, \<open>in_color_section\<close> and \<open>new_lines\<close>;
  \<open>block\<close> is \<open>new_color_palette_line.split('\n')\<close>. Both branches end in the loop's
  common \<open>i += 1\<close>.
\<close>

function palette_loop ::
  "string list \<Rightarrow> string list \<Rightarrow> nat \<Rightarrow> bool \<Rightarrow> string list \<Rightarrow> string list" where
  "palette_loop block lines i in_color_section new_lines =
     (if i < length lines then
        (if str_in color_palette_marker (lines ! i) \<and> \<not> in_color_section then
           (let j = skip_to_close lines i;
                j' = (if j < length lines then j + 1 else j)
            in palette_loop block lines (j' + 1) True (new_lines @ block))
         else palette_loop block lines (i + 1) in_color_section (new_lines @ [lines ! i]))
      else new_lines)"
  by pat_completeness auto
termination
proof (relation "measure (\<lambda>(block, lines, i, in_color_section, new_lines). length lines - i)")
  show "wf (measure (\<lambda>(block, lines, i, in_color_section, new_lines). length lines - i))"
    by simp
next
  fix block lines :: "string list" and i :: nat and in_color_section :: bool
    and new_lines :: "string list" and x xa
  assume a: "i < length lines" "x = skip_to_close lines i"
    "xa = (if x < length lines then x + 1 else x)"
  have ge: "k \<le> skip_to_close ls k" for ls k
  proof (induction ls k rule: skip_to_close.induct)
    case (1 ls k)
    then show ?case
      by (subst skip_to_close.simps) (auto simp: le_Suc_eq)
  qed
  from a ge [of i lines]
  show "((block, lines, xa + 1, True, new_lines @ block),
         (block, lines, i, in_color_section, new_lines))
        \<in> measure (\<lambda>(block, lines, i, in_color_section, new_lines). length lines - i)"
    by (auto split: if_splits)
next
  fix block lines :: "string list" and i :: nat and in_color_section :: bool
    and new_lines :: "string list"
  assume "i < length lines"
  then show "((block, lines, i + 1, in_color_section, new_lines @ [lines ! i]),
              (block, lines, i, in_color_section, new_lines))
             \<in> measure (\<lambda>(block, lines, i, in_color_section, new_lines). length lines - i)"
    by simp
qed

declare palette_loop.simps [simp del]

text \<open>The text \<open>update_readme\<close> writes, from the colours and the text it read.\<close>

definition readme_text :: "string list \<Rightarrow> string \<Rightarrow> string" where
  "readme_text colors content =
     (let lines = replace_img_line (split_nl content);
          color_imgs = map color_img colors;
          block = split_nl (new_color_palette_line color_imgs)
      in join_nl (palette_loop block lines 0 False []))"

definition update_readme :: "libs \<Rightarrow> fs \<Rightarrow> string \<Rightarrow> string list \<Rightarrow> error + fs" where
  "update_readme L fs selected_image colors =
     (if \<not> path_exists fs ''README.md'' then Inl FileNotFoundError
      else
        bind_err (read_text fs ''README.md'') (\<lambda>content.
        let lines = replace_img_line (split_nl content) in
        bind_err (color_loop L fs colors []) (\<lambda>(color_imgs, fs1).
        let block = split_nl (new_color_palette_line color_imgs);
            new_lines = palette_loop block lines 0 False []
        in write_file fs1 ''README.md'' (join_nl new_lines))))"

section \<open>Image Materializer\<close>

definition basename :: "string \<Rightarrow> string" where
  "basename p = rev (takeWhile (\<lambda>c. c \<noteq> CHR ''/'') (rev p))"

text \<open>\<open>shutil.copy2(src, dst)\<close>: the bytes of \<open>src\<close>, written to \<open>dst\<close> or, when \<open>dst\<close> is a
  directory, into it under the name of \<open>src\<close>.\<close>

definition copy2 :: "fs \<Rightarrow> string \<Rightarrow> string \<Rightarrow> error + fs" where
  "copy2 fs src dst =
     bind_err (read_file fs src) (\<lambda>bytes.
     write_file fs (if is_dir fs dst then path_join dst (basename src) else dst) bytes)"

definition copy_selected_image :: "libs \<Rightarrow> fs \<Rightarrow> string \<Rightarrow> error + fs" where
  "copy_selected_image L fs selected_image =
     (let source_path = path_join ''Waifu'' selected_image in
      if endswith (lower selected_image) ''.jpg'' \<or> endswith (lower selected_image) ''.jpeg''
      then copy2 fs source_path ''cropped.jpg''
      else
        bind_err (read_file fs source_path) (\<lambda>bytes.
        case image_open L bytes of
          None \<Rightarrow> Inl UnidentifiedImageError
        | Some img \<Rightarrow> write_file fs ''cropped.jpg'' (save L ''JPEG'' (convert L ''RGB'' img))))"

section \<open>The run\<close>

text \<open>
  \<open>random.choice(images)\<close> is \<open>images[k]\<close> for a random \<open>k\<close> below the length; \<open>r\<close> is the
  random draw. A run that ends without an exception returns the selection and the colours it
  printed, and the file system it leaves.
\<close>

definition random_choice :: "nat \<Rightarrow> 'a list \<Rightarrow> 'a" where
  "random_choice r xs = xs ! (r mod length xs)"

definition no_images :: error where
  "no_images = ValueError ''No suitable images found in Waifu folder''"

definition main :: "libs \<Rightarrow> nat \<Rightarrow> nat \<Rightarrow> fs \<Rightarrow> error + (string \<times> string list \<times> fs)" where
  "main L current_month r fs =
     bind_err (get_available_images fs current_month) (\<lambda>images.
     if images = [] then Inl no_images
     else
       let selected_image = random_choice r images in
       bind_err (copy_selected_image L fs selected_image) (\<lambda>fs1.
       let image_path = path_join ''Waifu'' selected_image in
       bind_err (extract_dominant_colors L fs1 image_path 5) (\<lambda>colors.
       bind_err (update_readme L fs1 ''cropped.jpg'' colors) (\<lambda>fs2.
       Inr (selected_image, colors, fs2)))))"

section \<open>Closed form of the palette loop\<close>

text \<open>
  What the outer \<open>while\<close> of \<open>update_readme\<close> computes, read off the loop: the lines before
  the first line with the opening marker are kept; from that line on, everything up to the
  first line with \<open></p>\<close> is dropped, and with it that line and the line after it (2 lines),
  and \<open>block\<close> stands in their place; the lines after that are kept.
\<close>

fun palette_closed :: "string list \<Rightarrow> string list \<Rightarrow> string list" where
  "palette_closed block [] = []"
| "palette_closed block (l # ls) =
     (if str_in color_palette_marker l
      then block @ drop 2 (dropWhile (\<lambda>x. \<not> str_in ''</p>'' x) (l # ls))
      else l # palette_closed block ls)"

section \<open>An instance of the libraries\<close>

text \<open>
  A small stand-in for the libraries, on which whole runs can be evaluated: one byte string
  decodes to a two-pixel RGBA image, \<open>convert\<close> keeps as many channels as the mode has
  letters, and the clustering returns the first \<open>k\<close> of five fixed centers.
\<close>

definition example_image :: image where
  "example_image =
     \<lparr>img_mode = ''RGBA'', img_width = 2, img_height = 1,
      img_pixels = [[255, 0, 0, 255], [0, 0, 255, 255]]\<rparr>"

definition example_libs :: libs where
  "example_libs =
     \<lparr>image_open = (\<lambda>bytes. if bytes = ''picture'' then Some example_image else None),
      convert = (\<lambda>m img. img\<lparr>img_mode := m, img_pixels := map (take (length m)) (img_pixels img)\<rparr>),
      resize = (\<lambda>dims img. img\<lparr>img_width := fst dims, img_height := snd dims\<rparr>),
      save = (\<lambda>fmt img. fmt @ '':'' @ img_mode img),
      kmeans = (\<lambda>k data. take k
                 [[255, 0, 0], [12.7, 0.5, 200], [0, 0, 255], [254.9, 254.9, 254.9], [0, 0, 0]])\<rparr>"

section \<open>Observations on colours and runs\<close>

text \<open>The pattern \<open>^#[0-9a-f]{6}$\<close>.\<close>

definition matches_hex_color :: "string \<Rightarrow> bool" where
  "matches_hex_color s =
     (case s of
        [] \<Rightarrow> False
      | c # ds \<Rightarrow> c = CHR ''#'' \<and> length ds = 6 \<and> list_all (\<lambda>d. d \<in> set ''0123456789abcdef'') ds)"

text \<open>Every regular file of \<open>fs\<close> is still a regular file in \<open>fs'\<close>.\<close>

definition files_kept :: "fs \<Rightarrow> fs \<Rightarrow> bool" where
  "files_kept fs fs' = (\<forall>p. is_file fs p \<longrightarrow> is_file fs' p)"

text \<open>The file system and the palette of a run that ended without an exception.\<close>

definition final_fs :: "error + (string \<times> string list \<times> fs) \<Rightarrow> fs" where
  "final_fs run = (case run of Inr (selected_image, colors, fs') \<Rightarrow> fs' | Inl e \<Rightarrow> Map.empty)"

definition palette_of :: "error + (string \<times> string list \<times> fs) \<Rightarrow> string list" where
  "palette_of run = (case run of Inr (selected_image, colors, fs') \<Rightarrow> colors | Inl e \<Rightarrow> [])"

text \<open>
  A working directory as a second run finds it: one picture in \<open>Waifu\<close>, a document with
  both regions, and in \<open>img\<close> the swatch \<open>123456.png\<close> of an earlier palette.
\<close>

definition example_fs :: fs where
  \<open>example_fs =
     [''Waifu'' \<mapsto> Dir [''b.jpg'', ''notes.txt''],
      ''Waifu/b.jpg'' \<mapsto> File ''picture'',
      ''README.md'' \<mapsto> File (join_nl [''# profile'', ''<img src="cropped.jpg" width="100">'',
                                         ''<p align="center">'', ''old swatches'', ''</p>'', []]),
      ''img'' \<mapsto> Dir [''123456.png''],
      ''img/123456.png'' \<mapsto> File ''PNG:RGB'']\<close>

section \<open>Evaluating the string and file-system operations\<close>

lemmas string_defs =
  lower_def lower_char_def endswith_def endswith_any_def startswith_def image_suffixes_def
  lstrip_hash_def

lemmas fs_defs =
  path_exists_def is_file_def is_dir_def listdir_def read_file_def write_file_def
  makedirs_exist_ok_def path_join_def bind_err_def

lemma bind_err_Inr_iff: "bind_err m f = Inr y \<longleftrightarrow> (\<exists>x. m = Inr x \<and> f x = Inr y)"
  by (cases m) (simp_all add: bind_err_def)

lemma bind_err_Inl_iff:
  "bind_err m f = Inl e \<longleftrightarrow> m = Inl e \<or> (\<exists>x. m = Inr x \<and> f x = Inl e)"
  by (cases m) (simp_all add: bind_err_def)

lemma lower_padoru: "lower ''padoru.png'' = ''padoru.png''"
  by (simp add: string_defs)

lemma padoru_is_image: "endswith_any (lower ''padoru.png'') image_suffixes"
  by (simp add: string_defs)

section \<open>Image Selector: the seasonal gate\<close>

lemma get_available_images_Dir:
  assumes "fs ''Waifu'' = Some (Dir listing)"
  shows "get_available_images fs current_month = Inr (filter (keep_image current_month) listing)"
  using assms by (simp add: get_available_images_def fs_defs)

text \<open>
  Claim C1. Whatever the \<open>Waifu\<close> folder lists and whatever the clock says, the result of
  \<open>get_available_images\<close> does not contain \<open>padoru.png\<close>, in any letter case, when the
  month is not 12. When the
  month is 12 the result is the listing filtered by extension alone, so \<open>padoru.png\<close> is in
  the result whenever it is in the listing.
\<close>

theorem get_available_images_padoru:
  assumes "fs ''Waifu'' = Some (Dir listing)"
  shows "(current_month \<noteq> 12 \<longrightarrow>
            (\<exists>images. get_available_images fs current_month = Inr images
                      \<and> ''padoru.png'' \<notin> set images
                      \<and> (\<forall>file\<in>set images. lower file \<noteq> ''padoru.png'')))
       \<and> (current_month = 12 \<longrightarrow>
            get_available_images fs current_month
              = Inr (filter (\<lambda>file. endswith_any (lower file) image_suffixes) listing)
            \<and> (''padoru.png'' \<in> set listing \<longrightarrow>
                 (\<exists>images. get_available_images fs current_month = Inr images
                           \<and> ''padoru.png'' \<in> set images)))"
proof (intro conjI impI)
  assume "current_month \<noteq> 12"
  then have any: "\<forall>file\<in>set (filter (keep_image current_month) listing).
                     lower file \<noteq> ''padoru.png''"
    by (simp add: keep_image_def)
  then have "''padoru.png'' \<notin> set (filter (keep_image current_month) listing)"
    using lower_padoru by blast
  with any get_available_images_Dir [of fs listing current_month] assms
  show "\<exists>images. get_available_images fs current_month = Inr images
                 \<and> ''padoru.png'' \<notin> set images
                 \<and> (\<forall>file\<in>set images. lower file \<noteq> ''padoru.png'')"
    by blast
next
  assume dec: "current_month = 12"
  then have keep: "keep_image current_month = (\<lambda>file. endswith_any (lower file) image_suffixes)"
    by (simp add: keep_image_def fun_eq_iff)
  with get_available_images_Dir [of fs listing current_month] assms
  show eq: "get_available_images fs current_month
              = Inr (filter (\<lambda>file. endswith_any (lower file) image_suffixes) listing)"
    by simp
  assume "''padoru.png'' \<in> set listing"
  then have "''padoru.png''
               \<in> set (filter (\<lambda>file. endswith_any (lower file) image_suffixes) listing)"
    using padoru_is_image by simp
  with eq show "\<exists>images. get_available_images fs current_month = Inr images
                        \<and> ''padoru.png'' \<in> set images"
    by blast
qed

theorem get_available_images_padoru_witness:
  "[''Waifu'' \<mapsto> Dir [''a.png'', ''b.jpg'', ''padoru.png'', ''notes.txt'']] ''Waifu''
     = Some (Dir [''a.png'', ''b.jpg'', ''padoru.png'', ''notes.txt''])
   \<and> (6::nat) \<noteq> 12
   \<and> (\<exists>images.
         get_available_images
           [''Waifu'' \<mapsto> Dir [''a.png'', ''b.jpg'', ''padoru.png'', ''notes.txt'']] 6 = Inr images
         \<and> ''padoru.png'' \<notin> set images)
   \<and> ''padoru.png'' \<in> set [''a.png'', ''b.jpg'', ''padoru.png'', ''notes.txt'']
   \<and> (\<exists>images.
         get_available_images
           [''Waifu'' \<mapsto> Dir [''a.png'', ''b.jpg'', ''padoru.png'', ''notes.txt'']] 12 = Inr images
         \<and> ''padoru.png'' \<in> set images)"
proof -
  have 1: "[''Waifu'' \<mapsto> Dir [''a.png'', ''b.jpg'', ''padoru.png'', ''notes.txt'']] ''Waifu''
     = Some (Dir [''a.png'', ''b.jpg'', ''padoru.png'', ''notes.txt''])"
    by simp
  have 2: "(6::nat) \<noteq> 12"
    by simp
  have 3: "''padoru.png'' \<in> set [''a.png'', ''b.jpg'', ''padoru.png'', ''notes.txt'']"
    by simp
  from 1 2 get_available_images_padoru
    [of "[''Waifu'' \<mapsto> Dir [''a.png'', ''b.jpg'', ''padoru.png'', ''notes.txt'']]"
        "[''a.png'', ''b.jpg'', ''padoru.png'', ''notes.txt'']" 6]
  have 4: "\<exists>images.
         get_available_images
           [''Waifu'' \<mapsto> Dir [''a.png'', ''b.jpg'', ''padoru.png'', ''notes.txt'']] 6 = Inr images
         \<and> ''padoru.png'' \<notin> set images"
    by blast
  from 1 3 get_available_images_padoru
    [of "[''Waifu'' \<mapsto> Dir [''a.png'', ''b.jpg'', ''padoru.png'', ''notes.txt'']]"
        "[''a.png'', ''b.jpg'', ''padoru.png'', ''notes.txt'']" 12]
  have 5: "\<exists>images.
         get_available_images
           [''Waifu'' \<mapsto> Dir [''a.png'', ''b.jpg'', ''padoru.png'', ''notes.txt'']] 12 = Inr images
         \<and> ''padoru.png'' \<in> set images"
    by blast
  from 1 2 4 3 5 show ?thesis
    by (intro conjI)
qed

section \<open>The run: the empty selection\<close>

lemma no_images_neq [simp]:
  "no_images \<noteq> FileNotFoundError" "no_images \<noteq> NotADirectoryError"
  "no_images \<noteq> IsADirectoryError" "no_images \<noteq> FileExistsError"
  "no_images \<noteq> UnidentifiedImageError"
  "no_images \<noteq> ValueError ''invalid literal for int() with base 16''"
  "FileNotFoundError \<noteq> no_images" "NotADirectoryError \<noteq> no_images"
  "IsADirectoryError \<noteq> no_images" "FileExistsError \<noteq> no_images"
  "UnidentifiedImageError \<noteq> no_images"
  "ValueError ''invalid literal for int() with base 16'' \<noteq> no_images"
  by (simp_all add: no_images_def)

lemma read_file_not_no_images: "read_file fs p \<noteq> Inl no_images"
  by (auto simp: read_file_def split: option.splits node.splits)

lemma write_file_not_no_images: "write_file fs p b \<noteq> Inl no_images"
  by (auto simp: write_file_def split: option.splits node.splits)

lemma makedirs_not_no_images: "makedirs_exist_ok fs p \<noteq> Inl no_images"
  by (auto simp: makedirs_exist_ok_def split: option.splits node.splits)

lemma listdir_not_no_images: "listdir fs p \<noteq> Inl no_images"
  by (auto simp: listdir_def split: option.splits node.splits)

lemma int16_not_no_images: "int16 s \<noteq> Inl no_images"
  by (auto simp: int16_def)

lemma get_available_images_not_no_images: "get_available_images fs m \<noteq> Inl no_images"
  by (auto simp: get_available_images_def bind_err_Inl_iff listdir_not_no_images)

lemma copy_selected_image_not_no_images: "copy_selected_image L fs s \<noteq> Inl no_images"
  by (auto simp: copy_selected_image_def copy2_def Let_def bind_err_Inl_iff
      read_file_not_no_images write_file_not_no_images split: option.splits)

lemma extract_dominant_colors_not_no_images: "extract_dominant_colors L fs p k \<noteq> Inl no_images"
  by (auto simp: extract_dominant_colors_def Let_def bind_err_Inl_iff
      read_file_not_no_images split: option.splits)

lemma create_color_image_not_no_images: "create_color_image L fs c w h \<noteq> Inl no_images"
  by (auto simp: create_color_image_def Let_def bind_err_Inl_iff int16_not_no_images
      makedirs_not_no_images write_file_not_no_images)

lemma color_loop_not_no_images: "color_loop L fs cs acc \<noteq> Inl no_images"
  by (induction cs arbitrary: fs acc)
     (auto simp: bind_err_Inl_iff create_color_image_not_no_images)

lemma update_readme_not_no_images: "update_readme L fs s cs \<noteq> Inl no_images"
  by (auto simp: update_readme_def read_text_def Let_def bind_err_Inl_iff
      read_file_not_no_images color_loop_not_no_images write_file_not_no_images)

text \<open>
  Claim C8. The run ends in the ``no suitable images'' error exactly when
  \<open>get_available_images\<close> returns the empty list: an empty candidate list always raises it,
  and with a non-empty candidate list (or any other outcome of the listing) the run never
  ends in that error.
\<close>

theorem main_empty_selection:
  "main L current_month r fs = Inl no_images
     \<longleftrightarrow> get_available_images fs current_month = Inr []"
  by (auto simp: main_def Let_def bind_err_Inl_iff get_available_images_not_no_images
      copy_selected_image_not_no_images extract_dominant_colors_not_no_images
      update_readme_not_no_images)

theorem main_empty_selection_witness:
  "main example_libs 6 0 [''Waifu'' \<mapsto> Dir [''notes.txt'', ''padoru.png'']] = Inl no_images
   \<and> main example_libs 12 0 [''Waifu'' \<mapsto> Dir [''notes.txt'', ''padoru.png'']] \<noteq> Inl no_images"
proof -
  have a: "get_available_images [''Waifu'' \<mapsto> Dir [''notes.txt'', ''padoru.png'']] 6 = Inr []"
    by code_simp
  have b: "get_available_images [''Waifu'' \<mapsto> Dir [''notes.txt'', ''padoru.png'']] 12
             = Inr [''padoru.png'']"
    by code_simp
  from a b
    main_empty_selection [of example_libs 6 0 "[''Waifu'' \<mapsto> Dir [''notes.txt'', ''padoru.png'']]"]
    main_empty_selection [of example_libs 12 0 "[''Waifu'' \<mapsto> Dir [''notes.txt'', ''padoru.png'']]"]
  show ?thesis
    by simp
qed

section \<open>Document Updater: the loops in closed form\<close>

lemma replace_img_line_none:
  "\<forall>l\<in>set lines. \<not> str_in old_img_line_pattern l \<Longrightarrow> replace_img_line lines = lines"
  by (induction lines) auto

lemma replace_img_line_first:
  "i < length lines \<Longrightarrow> str_in old_img_line_pattern (lines ! i) \<Longrightarrow>
   \<forall>k<i. \<not> str_in old_img_line_pattern (lines ! k) \<Longrightarrow>
   replace_img_line lines = lines[i := new_img_line]"
proof (induction lines arbitrary: i)
  case Nil
  then show ?case by simp
next
  case (Cons l ls)
  show ?case
  proof (cases i)
    case 0
    with Cons.prems show ?thesis by simp
  next
    case (Suc j)
    with Cons.prems have "\<not> str_in old_img_line_pattern l" by auto
    moreover from Suc Cons.prems have "replace_img_line ls = ls[j := new_img_line]"
      by (intro Cons.IH) auto
    ultimately show ?thesis using Suc by simp
  qed
qed

lemma skip_to_close_eq:
  "i \<le> length lines \<Longrightarrow>
   skip_to_close lines i = i + length (takeWhile (\<lambda>x. \<not> str_in ''</p>'' x) (drop i lines))"
proof (induction lines i rule: skip_to_close.induct)
  case (1 lines i)
  show ?case
  proof (cases "i < length lines \<and> \<not> str_in ''</p>'' (lines ! i)")
    case True
    then have d: "drop i lines = lines ! i # drop (Suc i) lines"
      by (simp add: Cons_nth_drop_Suc)
    from True 1 have "skip_to_close lines (i + 1)
        = i + 1 + length (takeWhile (\<lambda>x. \<not> str_in ''</p>'' x) (drop (i + 1) lines))"
      by simp
    with True d show ?thesis
      by (subst skip_to_close.simps) simp
  next
    case False
    show ?thesis
    proof (cases "i < length lines")
      case True
      with False have c: "str_in ''</p>'' (lines ! i)" by simp
      from True have "drop i lines = lines ! i # drop (Suc i) lines"
        by (simp add: Cons_nth_drop_Suc)
      with c False show ?thesis
        by (subst skip_to_close.simps) simp
    next
      case False
      then show ?thesis
        by (subst skip_to_close.simps) simp
    qed
  qed
qed

lemma palette_loop_in_section:
  "palette_loop block lines i True acc = acc @ drop i lines"
proof (induction "length lines - i" arbitrary: i acc)
  case 0
  then show ?case
    by (subst palette_loop.simps) simp
next
  case (Suc n)
  then have lt: "i < length lines" by simp
  from Suc have "palette_loop block lines (i + 1) True (acc @ [lines ! i])
      = (acc @ [lines ! i]) @ drop (i + 1) lines"
    by (intro Suc.hyps) simp
  with lt show ?case
    by (subst palette_loop.simps) (simp add: Cons_nth_drop_Suc)
qed

lemma drop_to_close:
  "drop (i + length (takeWhile P (drop i xs))) xs = dropWhile P (drop i xs)"
  by (simp add: dropWhile_eq_drop add.commute)

lemma drop_after_close:
  "drop ((if j < length xs then j + 1 else j) + 1) xs = drop 2 (drop j xs)"
  by (cases "j < length xs") simp_all

lemma palette_loop_search:
  "i \<le> length lines \<Longrightarrow>
   palette_loop block lines i False acc = acc @ palette_closed block (drop i lines)"
proof (induction "length lines - i" arbitrary: i acc)
  case 0
  then show ?case
    by (subst palette_loop.simps) simp
next
  case (Suc n)
  then have lt: "i < length lines" by simp
  then have d: "drop i lines = lines ! i # drop (Suc i) lines"
    by (simp add: Cons_nth_drop_Suc)
  show ?case
  proof (cases "str_in color_palette_marker (lines ! i)")
    case True
    define j where "j = skip_to_close lines i"
    have "j = i + length (takeWhile (\<lambda>x. \<not> str_in ''</p>'' x) (drop i lines))"
      unfolding j_def using lt by (simp add: skip_to_close_eq)
    then have dj: "drop j lines = dropWhile (\<lambda>x. \<not> str_in ''</p>'' x) (drop i lines)"
      by (simp only: drop_to_close)
    have "palette_loop block lines i False acc
        = palette_loop block lines ((if j < length lines then j + 1 else j) + 1) True (acc @ block)"
      unfolding j_def using True lt by (subst palette_loop.simps) (simp add: Let_def)
    also have "\<dots> = (acc @ block) @ drop ((if j < length lines then j + 1 else j) + 1) lines"
      by (rule palette_loop_in_section)
    also have "\<dots> = acc @ block @ drop 2 (dropWhile (\<lambda>x. \<not> str_in ''</p>'' x) (drop i lines))"
      by (simp only: drop_after_close dj append_assoc)
    finally have loop: "palette_loop block lines i False acc
        = acc @ block @ drop 2 (dropWhile (\<lambda>x. \<not> str_in ''</p>'' x) (drop i lines))" .
    have "palette_closed block (lines ! i # drop (Suc i) lines)
        = block @ drop 2 (dropWhile (\<lambda>x. \<not> str_in ''</p>'' x) (lines ! i # drop (Suc i) lines))"
      using True by (simp only: palette_closed.simps if_True)
    then have "palette_closed block (drop i lines)
        = block @ drop 2 (dropWhile (\<lambda>x. \<not> str_in ''</p>'' x) (drop i lines))"
      by (simp only: d [symmetric])
    with loop show ?thesis
      by (simp only:)
  next
    case False
    from Suc have "palette_loop block lines (i + 1) False (acc @ [lines ! i])
      = (acc @ [lines ! i]) @ palette_closed block (drop (i + 1) lines)"
      by (intro Suc.hyps) simp_all
    with False lt show ?thesis
      by (subst palette_loop.simps) (simp add: d)
  qed
qed

lemma palette_loop_closed: "palette_loop block lines 0 False [] = palette_closed block lines"
  using palette_loop_search [of 0 lines block "[]"] by simp


lemma palette_closed_no_marker:
  "\<forall>l\<in>set ls. \<not> str_in color_palette_marker l \<Longrightarrow> palette_closed block ls = ls"
  by (induction ls) simp_all

lemma palette_closed_first:
  "m < length ls \<Longrightarrow> str_in color_palette_marker (ls ! m) \<Longrightarrow>
   \<forall>l\<in>set (take m ls). \<not> str_in color_palette_marker l \<Longrightarrow>
   palette_closed block ls
     = take m ls @ block @ drop 2 (dropWhile (\<lambda>x. \<not> str_in ''</p>'' x) (drop m ls))"
proof (induction ls arbitrary: m)
  case Nil
  then show ?case by simp
next
  case (Cons l ls)
  show ?case
  proof (cases m)
    case 0
    with Cons.prems show ?thesis
      by (simp only: palette_closed.simps nth_Cons_0 if_True take_0 drop_0 append_Nil)
  next
    case (Suc k)
    with Cons.prems have nl: "\<not> str_in color_palette_marker l" by simp
    from Suc Cons.prems have "palette_closed block ls
        = take k ls @ block @ drop 2 (dropWhile (\<lambda>x. \<not> str_in ''</p>'' x) (drop k ls))"
      by (intro Cons.IH) simp_all
    with nl Suc show ?thesis
      by (simp only: palette_closed.simps if_False take_Suc_Cons drop_Suc_Cons append_Cons)
  qed
qed

lemma split_nl_not_Nil: "split_nl s \<noteq> []"
  by (induction s) (auto split: list.splits)

lemma split_nl_no_newline: "CHR 0x0A \<notin> set s \<Longrightarrow> split_nl s = [s]"
  by (induction s) (auto split: list.splits)

lemma split_nl_append: "CHR 0x0A \<notin> set a \<Longrightarrow> split_nl (a @ CHR 0x0A # b) = a # split_nl b"
  by (induction a) (auto split: list.splits)

lemma join_split_nl: "join_nl (split_nl s) = s"
proof (induction s)
  case Nil
  then show ?case by simp
next
  case (Cons c cs)
  obtain l ls where sp: "split_nl cs = l # ls"
    using split_nl_not_Nil [of cs] by (cases "split_nl cs") auto
  show ?case
  proof (cases "c = CHR 0x0A")
    case True
    with sp Cons show ?thesis by simp
  next
    case False
    with sp Cons show ?thesis by (cases ls) auto
  qed
qed

lemma newline_color_img: "CHR 0x0A \<in> set (color_img c) \<longleftrightarrow> CHR 0x0A \<in> set c"
proof -
  have "set (lstrip_hash c) \<subseteq> set c"
    unfolding lstrip_hash_def by (rule set_dropWhileD [THEN subsetI])
  then show ?thesis
    by (auto simp: color_img_def)
qed

lemma palette_block_lines:
  assumes "\<forall>c\<in>set colors. CHR 0x0A \<notin> set c"
  shows "split_nl (new_color_palette_line (map color_img colors))
           = [color_palette_marker, concat (map color_img colors), ''</p>'']"
proof -
  have a: "CHR 0x0A \<notin> set color_palette_marker"
    by (simp add: color_palette_marker_def)
  have b: "CHR 0x0A \<notin> set (concat (map color_img colors))"
    using assms by (auto simp: newline_color_img)
  have c: "CHR 0x0A \<notin> set ''</p>''"
    by simp
  have "new_color_palette_line (map color_img colors)
      = color_palette_marker @ CHR 0x0A # concat (map color_img colors) @ CHR 0x0A # ''</p>''"
    by (simp add: new_color_palette_line_def color_palette_marker_def)
  then show ?thesis
    by (simp only: split_nl_append [OF a] split_nl_append [OF b] split_nl_no_newline [OF c])
qed

lemma readme_text_closed:
  "readme_text colors content
     = join_nl (palette_closed (split_nl (new_color_palette_line (map color_img colors)))
                  (replace_img_line (split_nl content)))"
  by (simp add: readme_text_def Let_def palette_loop_closed)

section \<open>Document Updater: the image pass on a list of lines\<close>

lemma replace_img_line_cases:
  "((\<forall>l\<in>set lines. \<not> str_in old_img_line_pattern l) \<longrightarrow> replace_img_line lines = lines)
   \<and> (\<forall>i<length lines.
         str_in old_img_line_pattern (lines ! i)
         \<and> (\<forall>l\<in>set (take i lines). \<not> str_in old_img_line_pattern l)
         \<longrightarrow> replace_img_line lines = lines[i := new_img_line])
   \<and> ((\<forall>l\<in>set (split_nl content). \<not> str_in old_img_line_pattern l) \<longrightarrow>
         readme_text colors content
           = join_nl (palette_closed (split_nl (new_color_palette_line (map color_img colors)))
                        (split_nl content)))"
proof (intro conjI impI allI)
  assume "\<forall>l\<in>set lines. \<not> str_in old_img_line_pattern l"
  then show "replace_img_line lines = lines"
    by (rule replace_img_line_none)
next
  fix i
  assume "i < length lines"
    and "str_in old_img_line_pattern (lines ! i)
         \<and> (\<forall>l\<in>set (take i lines). \<not> str_in old_img_line_pattern l)"
  then have "i < length lines" "str_in old_img_line_pattern (lines ! i)"
    and "\<forall>k<i. \<not> str_in old_img_line_pattern (lines ! k)"
    by (simp_all add: all_set_conv_all_nth)
  then show "replace_img_line lines = lines[i := new_img_line]"
    by (rule replace_img_line_first)
next
  assume "\<forall>l\<in>set (split_nl content). \<not> str_in old_img_line_pattern l"
  then have "replace_img_line (split_nl content) = split_nl content"
    by (rule replace_img_line_none)
  then show "readme_text colors content
           = join_nl (palette_closed (split_nl (new_color_palette_line (map color_img colors)))
                        (split_nl content))"
    by (simp only: readme_text_closed)
qed

section \<open>Document Updater: a palette block that is never closed\<close>

text \<open>
  Claim C10, as amended. Take the lines of the document after the image line has been
  replaced. If line \<open>m\<close> is the first one that contains \<open><p align="center">\<close> and no line
  from line \<open>m\<close> on, line \<open>m\<close> itself included, contains \<open></p>\<close>, then \<open>update_readme\<close>
  writes the lines before \<open>m\<close> followed by the fresh palette block, and nothing else:
  every line from the opening marker to the end of the document is gone. For colours
  without a newline the block is the three lines: the opening marker, the concatenated
  \<open>img\<close> tags, \<open></p>\<close>.
\<close>

theorem update_readme_unclosed_block:
  assumes "lines = replace_img_line (split_nl content)"
    and "m < length lines"
    and "str_in color_palette_marker (lines ! m)"
    and "\<forall>l\<in>set (take m lines). \<not> str_in color_palette_marker l"
    and "\<forall>l\<in>set (drop m lines). \<not> str_in ''</p>'' l"
    and "\<forall>c\<in>set colors. CHR 0x0A \<notin> set c"
  shows "readme_text colors content
           = join_nl (take m lines
                      @ [color_palette_marker, concat (map color_img colors), ''</p>''])"
proof -
  from assms(5) have "dropWhile (\<lambda>x. \<not> str_in ''</p>'' x) (drop m lines) = []"
    by simp
  with palette_closed_first [OF assms(2) assms(3) assms(4)]
  have "palette_closed (split_nl (new_color_palette_line (map color_img colors))) lines
      = take m lines @ split_nl (new_color_palette_line (map color_img colors))"
    by simp
  with assms(1) show ?thesis
    by (simp only: readme_text_closed palette_block_lines [OF assms(6)])
qed


theorem update_readme_unclosed_block_witness:
  \<open>[''intro'', ''<p align="center">'', ''old'', ''more'']
     = replace_img_line (split_nl (join_nl [''intro'', ''<p align="center">'', ''old'', ''more'']))
   \<and> 1 < length [''intro'', ''<p align="center">'', ''old'', ''more'']
   \<and> str_in color_palette_marker ([''intro'', ''<p align="center">'', ''old'', ''more''] ! 1)
   \<and> list_all (\<lambda>l. \<not> str_in color_palette_marker l)
        (take 1 [''intro'', ''<p align="center">'', ''old'', ''more''])
   \<and> list_all (\<lambda>l. \<not> str_in ''</p>'' l)
        (drop 1 [''intro'', ''<p align="center">'', ''old'', ''more''])
   \<and> list_all (\<lambda>c. CHR 0x0A \<notin> set c) [''#ff0000'', ''#0c00c8'']
   \<and> readme_text [''#ff0000'', ''#0c00c8'']
        (join_nl [''intro'', ''<p align="center">'', ''old'', ''more''])
     = join_nl (take 1 [''intro'', ''<p align="center">'', ''old'', ''more'']
                @ [color_palette_marker,
                   concat (map color_img [''#ff0000'', ''#0c00c8'']), ''</p>''])\<close>
proof -
  let ?content = \<open>join_nl [''intro'', ''<p align="center">'', ''old'', ''more'']\<close>
  let ?lines = \<open>[''intro'', ''<p align="center">'', ''old'', ''more'']\<close>
  have 1: "?lines = replace_img_line (split_nl ?content)"
    by code_simp
  have 2: "1 < length ?lines"
    by simp
  have 3: "str_in color_palette_marker (?lines ! 1)"
    by code_simp
  have 4: "list_all (\<lambda>l. \<not> str_in color_palette_marker l) (take 1 ?lines)"
    by code_simp
  have 5: "list_all (\<lambda>l. \<not> str_in ''</p>'' l) (drop 1 ?lines)"
    by code_simp
  have 6: "list_all (\<lambda>c. CHR 0x0A \<notin> set c) [''#ff0000'', ''#0c00c8'']"
    by code_simp
  note 7 = update_readme_unclosed_block
    [OF 1 2 3 4 [unfolded list_all_iff] 5 [unfolded list_all_iff] 6 [unfolded list_all_iff]]
  from 1 2 3 4 5 6 7 show ?thesis
    by (intro conjI)
qed

text \<open>
  The claim as first stated asks only that no line after the opening-marker line contains
  \<open></p>\<close>. The search for \<open></p>\<close> starts on the opening-marker line itself: in the document
  below that line closes the block, no later line contains \<open></p>\<close>, and the last line \<open>B\<close>
  survives the rewrite.
\<close>

theorem update_readme_inline_close_counterexample:
  \<open>str_in color_palette_marker (split_nl (join_nl [''<p align="center">legacy</p>'', ''A'', ''B'']) ! 0)
   \<and> \<not> str_in ''</p>'' (split_nl (join_nl [''<p align="center">legacy</p>'', ''A'', ''B'']) ! 1)
   \<and> \<not> str_in ''</p>'' (split_nl (join_nl [''<p align="center">legacy</p>'', ''A'', ''B'']) ! 2)
   \<and> length (split_nl (join_nl [''<p align="center">legacy</p>'', ''A'', ''B''])) = 3
   \<and> split_nl (readme_text [''#ff0000''] (join_nl [''<p align="center">legacy</p>'', ''A'', ''B'']))
     = [''<p align="center">'', color_img ''#ff0000'', ''</p>'', ''B'']\<close>
  by code_simp

section \<open>Document Updater: lines outside the two regions\<close>

text \<open>
  Claim C3. The claim asks that every line outside the image line and the palette block
  is kept. In the document below, lines \<open>A\<close> and \<open>B\<close> follow the closing \<open></p>\<close> of the
  palette block and lie outside both regions; the rewritten document has lost line \<open>A\<close>.
  The loop skips the \<open></p>\<close> line and then runs its common \<open>i += 1\<close>, which steps over
  one more line.
\<close>

theorem update_readme_drops_line_after_block:
  \<open>split_nl (readme_text [''#ff0000'']
      (join_nl [''intro'', ''<p align="center">'', ''old swatches'', ''</p>'', ''A'', ''B'']))
     = [''intro'', ''<p align="center">'', color_img ''#ff0000'', ''</p>'', ''B'']\<close>
  by code_simp

section \<open>Document Updater: running twice\<close>

text \<open>
  Claim C2. The claim asks that a second run with the same colours leaves the document as
  the first run wrote it. On the document below the first run drops line \<open>A\<close> and the
  second run drops line \<open>B\<close>: each run removes the line that follows the block.
\<close>

theorem update_readme_not_idempotent:
  \<open>split_nl (readme_text [''#ff0000'']
      (join_nl [''intro'', ''<p align="center">'', ''old swatches'', ''</p>'', ''A'', ''B'']))
     = [''intro'', ''<p align="center">'', color_img ''#ff0000'', ''</p>'', ''B'']
   \<and> split_nl (readme_text [''#ff0000''] (readme_text [''#ff0000'']
      (join_nl [''intro'', ''<p align="center">'', ''old swatches'', ''</p>'', ''A'', ''B''])))
     = [''intro'', ''<p align="center">'', color_img ''#ff0000'', ''</p>'']\<close>
  by code_simp


section \<open>Swatch Renderer: the swatch file\<close>

lemma hex_val_hash: "hex_val CHR ''#'' = None"
  by (simp add: hex_val_def)

lemma lstrip_hash_hex:
  assumes "ds \<noteq> []" and "\<forall>c\<in>set ds. hex_val c \<noteq> None"
  shows "lstrip_hash (CHR ''#'' # ds) = ds"
proof -
  from assms obtain d ds' where ds: "ds = d # ds'" and "hex_val d \<noteq> None"
    by (cases ds) auto
  then have "d \<noteq> CHR ''#''"
    using hex_val_hash by auto
  with ds show ?thesis
    by (simp add: lstrip_hash_def)
qed

lemma int16_pair:
  assumes "hex_val a = Some x" and "hex_val b = Some y"
  shows "int16 [a, b] = Inr (16 * x + y)"
  using assms by (simp add: int16_def)

lemma image_new_fields:
  "img_mode (image_new m (w, h) c) = m"
  "img_width (image_new m (w, h) c) = w"
  "img_height (image_new m (w, h) c) = h"
  "img_pixels (image_new m (w, h) c) = replicate (w * h) c"
  by (simp_all add: image_new_def)

lemma create_color_image_hex:
  assumes ds: "ds = [d0, d1, d2, d3, d4, d5]"
    and v: "hex_val d0 = Some v0" "hex_val d1 = Some v1" "hex_val d2 = Some v2"
      "hex_val d3 = Some v3" "hex_val d4 = Some v4" "hex_val d5 = Some v5"
    and img: "\<not> is_file fs ''img''"
    and path: "\<not> is_dir fs (''img/'' @ ds @ ''.png'')"
  shows "create_color_image L fs (CHR ''#'' # ds) w h
    = Inr (''img/'' @ ds @ ''.png'',
           (case fs ''img'' of None \<Rightarrow> fs(''img'' \<mapsto> Dir []) | Some _ \<Rightarrow> fs)
             (''img/'' @ ds @ ''.png'' \<mapsto>
                File (save L ''PNG''
                  (image_new ''RGB'' (w, h) [16 * v0 + v1, 16 * v2 + v3, 16 * v4 + v5]))))"
proof -
  define p where "p = ''img/'' @ ds @ ''.png''"
  define fs1 where "fs1 = (case fs ''img'' of None \<Rightarrow> fs(''img'' \<mapsto> Dir []) | Some _ \<Rightarrow> fs)"
  define bytes where
    "bytes = save L ''PNG'' (image_new ''RGB'' (w, h) [16 * v0 + v1, 16 * v2 + v3, 16 * v4 + v5])"
  have strip: "lstrip_hash (CHR ''#'' # ds) = ds"
    using ds v by (intro lstrip_hash_hex) auto
  have s: "slice ds 0 2 = [d0, d1]" "slice ds 2 4 = [d2, d3]" "slice ds 4 6 = [d4, d5]"
    by (simp_all add: ds slice_def)
  have ne: "p \<noteq> ''img''"
    by (simp add: p_def)
  from img have mk: "makedirs_exist_ok fs ''img'' = Inr fs1"
    by (auto simp: fs1_def makedirs_exist_ok_def is_file_def split: option.splits node.splits)
  from path ne have wr: "write_file fs1 p bytes = Inr (fs1(p \<mapsto> File bytes))"
    by (auto simp: fs1_def p_def write_file_def is_dir_def split: option.splits node.splits)
  have "create_color_image L fs (CHR ''#'' # ds) w h
      = bind_err (makedirs_exist_ok fs ''img'') (\<lambda>fs1.
          bind_err (write_file fs1 p bytes) (\<lambda>fs2. Inr (p, fs2)))"
    unfolding create_color_image_def Let_def strip s p_def bytes_def
      int16_pair [OF v(1) v(2)] int16_pair [OF v(3) v(4)] int16_pair [OF v(5) v(6)]
    by (simp only: bind_err_def sum.case)
  also have "\<dots> = Inr (p, fs1(p \<mapsto> File bytes))"
    by (simp only: mk wr bind_err_def sum.case)
  finally show ?thesis
    by (simp only: p_def fs1_def bytes_def)
qed

text \<open>
  Claim C9. For a colour string \<open>#\<close> followed by six hex digits \<open>ds\<close>, with \<open>img\<close> not a
  regular file and the swatch path not a directory, \<open>create_color_image\<close> returns the path
  \<open>img/ds.png\<close>; afterwards \<open>img\<close> is a directory (created when it was absent), the file at
  the path holds the PNG bytes of a 25 by 20 RGB image whose every pixel is the triple the
  hex digits denote, whatever was at the path before, and every other path is untouched.
\<close>

theorem create_color_image_swatch:
  assumes "length ds = 6"
    and "\<forall>c\<in>set ds. hex_val c \<noteq> None"
    and "\<not> is_file fs ''img''"
    and "\<not> is_dir fs (''img/'' @ ds @ ''.png'')"
  shows "\<exists>fs' swatch rgb.
      create_color_image L fs (CHR ''#'' # ds) 25 20 = Inr (''img/'' @ ds @ ''.png'', fs')
      \<and> is_dir fs' ''img''
      \<and> fs' (''img/'' @ ds @ ''.png'') = Some (File (save L ''PNG'' swatch))
      \<and> (\<forall>p. p \<noteq> ''img'' \<and> p \<noteq> ''img/'' @ ds @ ''.png'' \<longrightarrow> fs' p = fs p)
      \<and> rgb = [16 * the (hex_val (ds ! 0)) + the (hex_val (ds ! 1)),
                16 * the (hex_val (ds ! 2)) + the (hex_val (ds ! 3)),
                16 * the (hex_val (ds ! 4)) + the (hex_val (ds ! 5))]
      \<and> img_mode swatch = ''RGB'' \<and> img_width swatch = 25 \<and> img_height swatch = 20
      \<and> length (img_pixels swatch) = 25 * 20
      \<and> (\<forall>px\<in>set (img_pixels swatch). px = rgb)"
proof -
  from assms(1) obtain d0 d1 d2 d3 d4 d5 where ds: "ds = [d0, d1, d2, d3, d4, d5]"
    by (auto simp: length_Suc_conv numeral_eq_Suc)
  with assms(2) obtain v0 v1 v2 v3 v4 v5 where
    v: "hex_val d0 = Some v0" "hex_val d1 = Some v1" "hex_val d2 = Some v2"
      "hex_val d3 = Some v3" "hex_val d4 = Some v4" "hex_val d5 = Some v5"
    by auto
  define rgb where "rgb = [16 * v0 + v1, 16 * v2 + v3, 16 * v4 + v5]"
  define swatch where "swatch = image_new ''RGB'' (25, 20) rgb"
  define p where "p = ''img/'' @ ds @ ''.png''"
  define fs1 where "fs1 = (case fs ''img'' of None \<Rightarrow> fs(''img'' \<mapsto> Dir []) | Some _ \<Rightarrow> fs)"
  define fs' where "fs' = fs1(p \<mapsto> File (save L ''PNG'' swatch))"
  have run: "create_color_image L fs (CHR ''#'' # ds) 25 20 = Inr (p, fs')"
    unfolding p_def fs'_def fs1_def swatch_def rgb_def
    by (rule create_color_image_hex [OF ds v assms(3) assms(4)])
  have ne: "p \<noteq> ''img''"
    by (simp add: p_def)
  have "is_dir fs1 ''img''"
    using assms(3) by (auto simp: fs1_def is_dir_def is_file_def split: option.splits node.splits)
  with ne have dir: "is_dir fs' ''img''"
    by (simp add: fs'_def is_dir_def)
  have written: "fs' p = Some (File (save L ''PNG'' swatch))"
    by (simp add: fs'_def)
  have "\<forall>q. q \<noteq> ''img'' \<longrightarrow> fs1 q = fs q"
    by (auto simp: fs1_def split: option.splits)
  then have frame: "\<forall>q. q \<noteq> ''img'' \<and> q \<noteq> p \<longrightarrow> fs' q = fs q"
    by (simp add: fs'_def)
  have rgb: "rgb = [16 * the (hex_val (ds ! 0)) + the (hex_val (ds ! 1)),
                16 * the (hex_val (ds ! 2)) + the (hex_val (ds ! 3)),
                16 * the (hex_val (ds ! 4)) + the (hex_val (ds ! 5))]"
    by (simp add: rgb_def ds v)
  have px: "img_mode swatch = ''RGB''" "img_width swatch = 25" "img_height swatch = 20"
    "length (img_pixels swatch) = 25 * 20"
    by (simp_all only: swatch_def image_new_fields length_replicate)
  have fill: "\<forall>px\<in>set (img_pixels swatch). px = rgb"
    unfolding Ball_def swatch_def image_new_fields in_set_replicate by blast
  from run dir written frame rgb px fill show ?thesis
    unfolding p_def by blast
qed


theorem create_color_image_swatch_witness:
  "length ''ff8000'' = 6
   \<and> list_all (\<lambda>c. hex_val c \<noteq> None) ''ff8000''
   \<and> \<not> is_file Map.empty ''img''
   \<and> \<not> is_dir Map.empty (''img/'' @ ''ff8000'' @ ''.png'')
   \<and> (\<exists>fs' swatch rgb.
      create_color_image example_libs Map.empty (CHR ''#'' # ''ff8000'') 25 20
        = Inr (''img/'' @ ''ff8000'' @ ''.png'', fs')
      \<and> is_dir fs' ''img''
      \<and> fs' (''img/'' @ ''ff8000'' @ ''.png'') = Some (File (save example_libs ''PNG'' swatch))
      \<and> (\<forall>p. p \<noteq> ''img'' \<and> p \<noteq> ''img/'' @ ''ff8000'' @ ''.png'' \<longrightarrow> fs' p = Map.empty p)
      \<and> rgb = [16 * the (hex_val (''ff8000'' ! 0)) + the (hex_val (''ff8000'' ! 1)),
                16 * the (hex_val (''ff8000'' ! 2)) + the (hex_val (''ff8000'' ! 3)),
                16 * the (hex_val (''ff8000'' ! 4)) + the (hex_val (''ff8000'' ! 5))]
      \<and> img_mode swatch = ''RGB'' \<and> img_width swatch = 25 \<and> img_height swatch = 20
      \<and> length (img_pixels swatch) = 25 * 20
      \<and> (\<forall>px\<in>set (img_pixels swatch). px = rgb))"
proof -
  have 1: "length ''ff8000'' = 6"
    by simp
  have 2: "list_all (\<lambda>c. hex_val c \<noteq> None) ''ff8000''"
    by code_simp
  have 3: "\<not> is_file Map.empty ''img''"
    by (simp add: is_file_def)
  have 4: "\<not> is_dir Map.empty (''img/'' @ ''ff8000'' @ ''.png'')"
    by (simp add: is_dir_def)
  note 5 = create_color_image_swatch [OF 1 2 [unfolded list_all_iff] 3 4, of example_libs]
  from 1 2 3 4 5 show ?thesis
    by (intro conjI)
qed

lemma create_color_image_example:
  "map_sum id fst (create_color_image example_libs Map.empty ''#ff8000'' 25 20) = Inr ''img/ff8000.png''"
  by code_simp

section \<open>Image Materializer: the output file\<close>

lemma write_file_not_dir:
  "\<not> is_dir fs p \<Longrightarrow> write_file fs p bytes = Inr (fs(p \<mapsto> File bytes))"
  by (auto simp: write_file_def is_dir_def split: option.splits node.splits)

text \<open>
  Claim C7. With the selected file readable and \<open>cropped.jpg\<close> not a directory,
  \<open>copy_selected_image\<close> leaves the file system changed at \<open>cropped.jpg\<close> only: for a name
  ending in \<open>.jpg\<close> or \<open>.jpeg\<close> in any letter case the file holds the source's bytes as
  they are; for any other name it holds the JPEG encoding of the decoded source converted to
  RGB, and a source that does not decode raises the decode error. Whatever \<open>cropped.jpg\<close>
  held before is overwritten.
\<close>

theorem copy_selected_image_cropped:
  assumes "read_file fs (path_join ''Waifu'' selected_image) = Inr bytes"
    and "\<not> is_dir fs ''cropped.jpg''"
  shows "(endswith (lower selected_image) ''.jpg'' \<or> endswith (lower selected_image) ''.jpeg''
            \<longrightarrow> copy_selected_image L fs selected_image
                  = Inr (fs(''cropped.jpg'' \<mapsto> File bytes)))
       \<and> (\<not> (endswith (lower selected_image) ''.jpg'' \<or> endswith (lower selected_image) ''.jpeg'')
            \<longrightarrow> (\<forall>img. image_open L bytes = Some img
                    \<longrightarrow> copy_selected_image L fs selected_image
                          = Inr (fs(''cropped.jpg'' \<mapsto>
                                   File (save L ''JPEG'' (convert L ''RGB'' img)))))
                \<and> (image_open L bytes = None
                    \<longrightarrow> copy_selected_image L fs selected_image = Inl UnidentifiedImageError))"
  using assms
  by (auto simp: copy_selected_image_def copy2_def Let_def bind_err_def write_file_not_dir)


theorem copy_selected_image_cropped_witness:
  "read_file [''Waifu/Pic.JPG'' \<mapsto> File ''raw bytes''] (path_join ''Waifu'' ''Pic.JPG'')
     = Inr ''raw bytes''
   \<and> \<not> is_dir [''Waifu/Pic.JPG'' \<mapsto> File ''raw bytes''] ''cropped.jpg''
   \<and> (endswith (lower ''Pic.JPG'') ''.jpg'' \<or> endswith (lower ''Pic.JPG'') ''.jpeg'')
   \<and> copy_selected_image example_libs [''Waifu/Pic.JPG'' \<mapsto> File ''raw bytes''] ''Pic.JPG''
     = Inr ([''Waifu/Pic.JPG'' \<mapsto> File ''raw bytes''](''cropped.jpg'' \<mapsto> File ''raw bytes''))
   \<and> read_file [''Waifu/anim.gif'' \<mapsto> File ''picture''] (path_join ''Waifu'' ''anim.gif'')
     = Inr ''picture''
   \<and> \<not> is_dir [''Waifu/anim.gif'' \<mapsto> File ''picture''] ''cropped.jpg''
   \<and> \<not> (endswith (lower ''anim.gif'') ''.jpg'' \<or> endswith (lower ''anim.gif'') ''.jpeg'')
   \<and> image_open example_libs ''picture'' = Some example_image
   \<and> copy_selected_image example_libs [''Waifu/anim.gif'' \<mapsto> File ''picture''] ''anim.gif''
     = Inr ([''Waifu/anim.gif'' \<mapsto> File ''picture'']
             (''cropped.jpg'' \<mapsto>
                File (save example_libs ''JPEG'' (convert example_libs ''RGB'' example_image))))"
proof -
  have 1: "read_file [''Waifu/Pic.JPG'' \<mapsto> File ''raw bytes''] (path_join ''Waifu'' ''Pic.JPG'')
     = Inr ''raw bytes''"
    by code_simp
  have 2: "\<not> is_dir [''Waifu/Pic.JPG'' \<mapsto> File ''raw bytes''] ''cropped.jpg''"
    by code_simp
  have 3: "endswith (lower ''Pic.JPG'') ''.jpg'' \<or> endswith (lower ''Pic.JPG'') ''.jpeg''"
    by code_simp
  have 4: "read_file [''Waifu/anim.gif'' \<mapsto> File ''picture''] (path_join ''Waifu'' ''anim.gif'')
     = Inr ''picture''"
    by code_simp
  have 5: "\<not> is_dir [''Waifu/anim.gif'' \<mapsto> File ''picture''] ''cropped.jpg''"
    by code_simp
  have 6: "\<not> (endswith (lower ''anim.gif'') ''.jpg'' \<or> endswith (lower ''anim.gif'') ''.jpeg'')"
    by code_simp
  have 7: "image_open example_libs ''picture'' = Some example_image"
    by (simp add: example_libs_def)
  from copy_selected_image_cropped [OF 1 2, of example_libs] 3
  have 8: "copy_selected_image example_libs [''Waifu/Pic.JPG'' \<mapsto> File ''raw bytes''] ''Pic.JPG''
     = Inr ([''Waifu/Pic.JPG'' \<mapsto> File ''raw bytes''](''cropped.jpg'' \<mapsto> File ''raw bytes''))"
    by blast
  from copy_selected_image_cropped [OF 4 5, of example_libs] 6 7
  have 9: "copy_selected_image example_libs [''Waifu/anim.gif'' \<mapsto> File ''picture''] ''anim.gif''
     = Inr ([''Waifu/anim.gif'' \<mapsto> File ''picture'']
             (''cropped.jpg'' \<mapsto>
                File (save example_libs ''JPEG'' (convert example_libs ''RGB'' example_image))))"
    by blast
  from 1 2 3 8 4 5 6 7 9 show ?thesis
    by (intro conjI)
qed


section \<open>Palette Extractor: the colour strings\<close>

lemma hex_char_lower_hex: "hex_char d \<in> set ''0123456789abcdef''"
proof -
  have "d mod 16 < length ''0123456789abcdef''"
    by simp
  then show ?thesis
    unfolding hex_char_def by (rule nth_mem)
qed

lemma hex_char_0: "hex_char 0 = CHR ''0''"
  by (simp add: hex_char_def)

lemma hex_digits_byte:
  assumes "n < 256"
  shows "hex_digits n = (if n < 16 then [hex_char n] else [hex_char (n div 16), hex_char (n mod 16)])"
proof (cases "n < 16")
  case True
  then show ?thesis
    by (subst hex_digits.simps) simp
next
  case False
  from assms have "n div 16 < 16"
    by simp
  then have "hex_digits (n div 16) = [hex_char (n div 16)]"
    by (subst hex_digits.simps) simp
  with False show ?thesis
    by (subst hex_digits.simps) simp
qed

lemma format_02x_byte:
  assumes "0 \<le> n" and "n \<le> 255"
  shows "format_02x n = [hex_char (nat n div 16), hex_char (nat n mod 16)]"
proof -
  from assms have lt: "nat n < 256"
    by simp
  show ?thesis
  proof (cases "nat n < 16")
    case True
    then have "nat n div 16 = 0" "nat n mod 16 = nat n"
      by simp_all
    with True assms lt show ?thesis
      by (simp add: format_02x_def hex_digits_byte hex_char_0)
  next
    case False
    with assms lt show ?thesis
      by (simp add: format_02x_def hex_digits_byte)
  qed
qed

lemma astype_int_byte:
  assumes "0 \<le> x" and "x \<le> 255"
  shows "0 \<le> astype_int x" and "astype_int x \<le> 255"
  using assms by (simp_all add: astype_int_def floor_le_iff)

lemma astype_int_toward_zero:
  "\<bar>real_of_int (astype_int x)\<bar> \<le> \<bar>x\<bar> \<and> \<bar>x - real_of_int (astype_int x)\<bar> < 1"
proof (cases "0 \<le> x")
  case True
  then have "0 \<le> \<lfloor>x\<rfloor>"
    by simp
  with True show ?thesis
    unfolding astype_int_def by simp linarith
next
  case False
  then have "\<lceil>x\<rceil> \<le> 0"
    by (simp add: ceiling_le_iff)
  with False show ?thesis
    unfolding astype_int_def by simp linarith
qed

lemma hex_of_color_center:
  assumes "\<forall>x\<in>set center. 0 \<le> x \<and> x \<le> 255"
  shows "hex_of_color (map astype_int center)
    = CHR ''#'' # concat (map (\<lambda>x. [hex_char (nat (astype_int x) div 16),
                                       hex_char (nat (astype_int x) mod 16)]) center)"
proof -
  have "map format_02x (map astype_int center)
      = map (\<lambda>x. [hex_char (nat (astype_int x) div 16), hex_char (nat (astype_int x) mod 16)]) center"
    using assms by (simp add: format_02x_byte astype_int_byte)
  then show ?thesis
    by (simp only: hex_of_color_def)
qed

lemma matches_hex_color_center:
  assumes "length center = 3"
  shows "matches_hex_color
    (CHR ''#'' # concat (map (\<lambda>x. [hex_char (nat (astype_int x) div 16),
                                    hex_char (nat (astype_int x) mod 16)]) center))"
proof -
  from assms obtain a b c where "center = [a, b, c]"
    by (auto simp: length_Suc_conv numeral_eq_Suc)
  then show ?thesis
    using hex_char_lower_hex by (simp add: matches_hex_color_def)
qed

text \<open>
  Claim C4. Let the image at \<open>image_path\<close> decode, and let the clustering return \<open>k\<close>
  centers of three channels each, every channel between 0 and 255 (what k-means gives on
  RGB pixels when \<open>k\<close> does not exceed the number of distinct pixels). Then
  \<open>extract_dominant_colors\<close> returns exactly \<open>k\<close> strings, each matching \<open>^#[0-9a-f]{6}$\<close>,
  and each is \<open>#\<close> followed, channel by channel, by the two lowercase hex digits of the
  channel truncated toward zero, an integer from 0 to 255.
\<close>

theorem extract_dominant_colors_hex:
  assumes "read_file fs image_path = Inr bytes"
    and "image_open L bytes = Some img0"
    and "centers = kmeans L k (img_pixels (resize L (150, 150) (convert L ''RGB'' img0)))"
    and "length centers = k"
    and "\<forall>center\<in>set centers. length center = 3 \<and> (\<forall>x\<in>set center. 0 \<le> x \<and> x \<le> 255)"
  shows "\<exists>hex_colors.
      extract_dominant_colors L fs image_path k = Inr hex_colors
      \<and> length hex_colors = k
      \<and> (\<forall>s\<in>set hex_colors. matches_hex_color s)
      \<and> hex_colors
          = map (\<lambda>center. CHR ''#'' # concat (map (\<lambda>x. [hex_char (nat (astype_int x) div 16),
                                                         hex_char (nat (astype_int x) mod 16)])
                                                center)) centers
      \<and> (\<forall>center\<in>set centers. \<forall>x\<in>set center.
            0 \<le> astype_int x \<and> astype_int x \<le> 255
            \<and> \<bar>real_of_int (astype_int x)\<bar> \<le> \<bar>x\<bar> \<and> \<bar>x - real_of_int (astype_int x)\<bar> < 1)"
proof -
  define hex_colors where "hex_colors = map hex_of_color (map (map astype_int) centers)"
  have run: "extract_dominant_colors L fs image_path k = Inr hex_colors"
    by (simp add: extract_dominant_colors_def bind_err_def Let_def assms(1,2)
        hex_colors_def assms(3) [symmetric])
  have len: "length hex_colors = k"
    by (simp add: hex_colors_def assms(4))
  have form: "hex_colors
      = map (\<lambda>center. CHR ''#'' # concat (map (\<lambda>x. [hex_char (nat (astype_int x) div 16),
                                                     hex_char (nat (astype_int x) mod 16)])
                                            center)) centers"
    using assms(5) by (simp add: hex_colors_def hex_of_color_center)
  have hex: "\<forall>s\<in>set hex_colors. matches_hex_color s"
    unfolding form using assms(5) by (auto simp: matches_hex_color_center)
  have chan: "\<forall>center\<in>set centers. \<forall>x\<in>set center.
            0 \<le> astype_int x \<and> astype_int x \<le> 255
            \<and> \<bar>real_of_int (astype_int x)\<bar> \<le> \<bar>x\<bar> \<and> \<bar>x - real_of_int (astype_int x)\<bar> < 1"
    using assms(5) astype_int_byte astype_int_toward_zero by blast
  from run len hex form chan show ?thesis
    by blast
qed

lemma example_extract:
  "extract_dominant_colors example_libs [''Waifu/b.jpg'' \<mapsto> File ''picture''] ''Waifu/b.jpg'' 5
     = Inr [''#ff0000'', ''#0c00c8'', ''#0000ff'', ''#fefefe'', ''#000000'']"
  by code_simp


theorem extract_dominant_colors_hex_witness:
  "read_file [''Waifu/b.jpg'' \<mapsto> File ''picture''] ''Waifu/b.jpg'' = Inr ''picture''
   \<and> image_open example_libs ''picture'' = Some example_image
   \<and> [[255, 0, 0], [12.7, 0.5, 200], [0, 0, 255], [254.9, 254.9, 254.9], [0, 0, 0]]
       = kmeans example_libs 5
           (img_pixels (resize example_libs (150, 150) (convert example_libs ''RGB'' example_image)))
   \<and> length [[255, 0, 0], [12.7, 0.5, 200], [0, 0, 255], [254.9, 254.9, 254.9], [0, 0, 0 :: real]] = 5
   \<and> list_all (\<lambda>center. length center = 3 \<and> list_all (\<lambda>x. 0 \<le> x \<and> x \<le> 255) center)
        [[255, 0, 0], [12.7, 0.5, 200], [0, 0, 255], [254.9, 254.9, 254.9], [0, 0, 0 :: real]]
   \<and> extract_dominant_colors example_libs [''Waifu/b.jpg'' \<mapsto> File ''picture''] ''Waifu/b.jpg'' 5
       = Inr [''#ff0000'', ''#0c00c8'', ''#0000ff'', ''#fefefe'', ''#000000'']
   \<and> list_all matches_hex_color [''#ff0000'', ''#0c00c8'', ''#0000ff'', ''#fefefe'', ''#000000'']"
proof -
  let ?fs = "[''Waifu/b.jpg'' \<mapsto> File ''picture'']"
  let ?centers = "[[255, 0, 0], [12.7, 0.5, 200], [0, 0, 255], [254.9, 254.9, 254.9], [0, 0, 0 :: real]]"
  have 1: "read_file ?fs ''Waifu/b.jpg'' = Inr ''picture''"
    by code_simp
  have 2: "image_open example_libs ''picture'' = Some example_image"
    by (simp add: example_libs_def)
  have 3: "?centers = kmeans example_libs 5
           (img_pixels (resize example_libs (150, 150) (convert example_libs ''RGB'' example_image)))"
    by (simp add: example_libs_def)
  have 4: "length ?centers = 5"
    by simp
  have 5: "list_all (\<lambda>center. length center = 3 \<and> list_all (\<lambda>x. 0 \<le> x \<and> x \<le> 255) center)
             ?centers"
    by simp
  have 6: "extract_dominant_colors example_libs ?fs ''Waifu/b.jpg'' 5
       = Inr [''#ff0000'', ''#0c00c8'', ''#0000ff'', ''#fefefe'', ''#000000'']"
    by code_simp
  from extract_dominant_colors_hex [OF 1 2 3 4 5 [unfolded list_all_iff]]
  have 7: "list_all matches_hex_color [''#ff0000'', ''#0c00c8'', ''#0000ff'', ''#fefefe'', ''#000000'']"
  proof (elim exE conjE)
    fix hex_colors
    assume "extract_dominant_colors example_libs ?fs ''Waifu/b.jpg'' 5 = Inr hex_colors"
      and m: "\<forall>s\<in>set hex_colors. matches_hex_color s"
    with 6 have "hex_colors = [''#ff0000'', ''#0c00c8'', ''#0000ff'', ''#fefefe'', ''#000000'']"
      by (simp only: sum.inject)
    with m show ?thesis
      by (simp only: list_all_iff)
  qed
  from 1 2 3 4 5 6 7 show ?thesis
    by (intro conjI)
qed

section \<open>The run: what exists afterwards\<close>

lemma files_kept_refl: "files_kept fs fs"
  by (simp add: files_kept_def)

lemma files_kept_trans: "files_kept fs fs1 \<Longrightarrow> files_kept fs1 fs2 \<Longrightarrow> files_kept fs fs2"
  by (simp add: files_kept_def)

lemma write_file_kept:
  assumes "write_file fs p bytes = Inr fs'"
  shows "is_file fs' p" and "files_kept fs fs'"
  using assms
  by (auto simp: write_file_def files_kept_def is_file_def split: option.splits node.splits if_splits)

lemma makedirs_kept:
  assumes "makedirs_exist_ok fs p = Inr fs'"
  shows "files_kept fs fs'"
  using assms
  by (auto simp: makedirs_exist_ok_def files_kept_def is_file_def split: option.splits node.splits if_splits)

lemma create_color_image_kept:
  assumes "create_color_image L fs color w h = Inr (img_path, fs')"
  shows "is_file fs' (''img/'' @ lstrip_hash color @ ''.png'')" and "files_kept fs fs'"
proof -
  from assms obtain fs1 bytes where mk: "makedirs_exist_ok fs ''img'' = Inr fs1"
    and wr: "write_file fs1 (''img/'' @ lstrip_hash color @ ''.png'') bytes = Inr fs'"
    by (auto simp: create_color_image_def Let_def bind_err_Inr_iff)
  from wr show "is_file fs' (''img/'' @ lstrip_hash color @ ''.png'')"
    by (rule write_file_kept)
  from makedirs_kept [OF mk] write_file_kept(2) [OF wr] show "files_kept fs fs'"
    by (rule files_kept_trans)
qed

lemma color_loop_kept:
  assumes "color_loop L fs colors acc = Inr (color_imgs, fs')"
  shows "color_imgs = acc @ map color_img colors
       \<and> files_kept fs fs'
       \<and> (\<forall>c\<in>set colors. is_file fs' (''img/'' @ lstrip_hash c @ ''.png''))"
  using assms
proof (induction colors arbitrary: fs acc)
  case Nil
  then show ?case
    by (simp add: files_kept_refl)
next
  case (Cons c colors)
  from Cons.prems obtain img_path fs1 where
    mk: "create_color_image L fs c 25 20 = Inr (img_path, fs1)"
    and rest: "color_loop L fs1 colors (acc @ [color_img c]) = Inr (color_imgs, fs')"
    by (auto simp: bind_err_Inr_iff)
  note ih = Cons.IH [OF rest]
  from create_color_image_kept(1) [OF mk] ih have "is_file fs' (''img/'' @ lstrip_hash c @ ''.png'')"
    by (simp add: files_kept_def)
  moreover from create_color_image_kept(2) [OF mk] ih have "files_kept fs fs'"
    by (blast intro: files_kept_trans)
  ultimately show ?case
    using ih by simp
qed

lemma update_readme_kept:
  assumes "update_readme L fs selected_image colors = Inr fs'"
  shows "files_kept fs fs'"
    and "\<forall>c\<in>set colors. is_file fs' (''img/'' @ lstrip_hash c @ ''.png'')"
    and "\<exists>content. read_text fs ''README.md'' = Inr content
           \<and> fs' ''README.md'' = Some (File (readme_text colors content))"
proof -
  from assms obtain content color_imgs fs1 where
    rd: "read_text fs ''README.md'' = Inr content"
    and loop: "color_loop L fs colors [] = Inr (color_imgs, fs1)"
    and wr: "write_file fs1 ''README.md''
               (join_nl (palette_loop (split_nl (new_color_palette_line color_imgs))
                           (replace_img_line (split_nl content)) 0 False [])) = Inr fs'"
    by (auto simp: update_readme_def Let_def bind_err_Inr_iff split: if_splits)
  note l = color_loop_kept [OF loop]
  from l write_file_kept(2) [OF wr] show "files_kept fs fs'"
    by (blast intro: files_kept_trans)
  from l write_file_kept(2) [OF wr]
  show "\<forall>c\<in>set colors. is_file fs' (''img/'' @ lstrip_hash c @ ''.png'')"
    by (simp add: files_kept_def)
  from l have "color_imgs = map color_img colors"
    by simp
  with wr have "fs' ''README.md'' = Some (File (readme_text colors content))"
    by (auto simp: write_file_def readme_text_def Let_def split: option.splits node.splits)
  with rd show "\<exists>content. read_text fs ''README.md'' = Inr content
           \<and> fs' ''README.md'' = Some (File (readme_text colors content))"
    by blast
qed

lemma copy_selected_image_kept:
  assumes "copy_selected_image L fs selected_image = Inr fs'"
  shows "files_kept fs fs'" and "\<not> is_dir fs ''cropped.jpg'' \<Longrightarrow> is_file fs' ''cropped.jpg''"
  using assms
  by (auto simp: copy_selected_image_def copy2_def Let_def bind_err_Inr_iff
      dest: write_file_kept split: if_splits option.splits)

lemma extract_dominant_colors_length:
  assumes "extract_dominant_colors L fs p k = Inr colors"
  shows "\<exists>data. length colors = length (kmeans L k data)"
  using assms
  by (fastforce simp: extract_dominant_colors_def Let_def bind_err_Inr_iff split: option.splits)

lemma write_file_files:
  assumes "write_file fs p bytes = Inr fs'"
  shows "is_file fs' q \<longleftrightarrow> is_file fs q \<or> q = p"
  using assms
  by (auto simp: write_file_def is_file_def split: option.splits node.splits if_splits)

lemma makedirs_files:
  assumes "makedirs_exist_ok fs p = Inr fs'"
  shows "is_file fs' q \<longleftrightarrow> is_file fs q"
  using assms
  by (auto simp: makedirs_exist_ok_def is_file_def split: option.splits node.splits if_splits)

lemma create_color_image_files:
  assumes "create_color_image L fs color w h = Inr (img_path, fs')"
  shows "is_file fs' q \<longleftrightarrow> is_file fs q \<or> q = ''img/'' @ lstrip_hash color @ ''.png''"
proof -
  from assms obtain fs1 bytes where mk: "makedirs_exist_ok fs ''img'' = Inr fs1"
    and wr: "write_file fs1 (''img/'' @ lstrip_hash color @ ''.png'') bytes = Inr fs'"
    by (auto simp: create_color_image_def Let_def bind_err_Inr_iff)
  show ?thesis
    by (simp only: write_file_files [OF wr] makedirs_files [OF mk])
qed

lemma color_loop_files:
  assumes "color_loop L fs colors acc = Inr (color_imgs, fs')"
  shows "is_file fs' q
           \<longleftrightarrow> is_file fs q \<or> (\<exists>c\<in>set colors. q = ''img/'' @ lstrip_hash c @ ''.png'')"
  using assms
proof (induction colors arbitrary: fs acc)
  case Nil
  then show ?case
    by simp
next
  case (Cons c colors)
  from Cons.prems obtain img_path fs1 where
    mk: "create_color_image L fs c 25 20 = Inr (img_path, fs1)"
    and rest: "color_loop L fs1 colors (acc @ [color_img c]) = Inr (color_imgs, fs')"
    by (auto simp: bind_err_Inr_iff)
  show ?case
    unfolding Cons.IH [OF rest] create_color_image_files [OF mk] by auto
qed

lemma read_text_is_file:
  assumes "read_text fs p = Inr content"
  shows "is_file fs p"
  using assms
  by (auto simp: read_text_def read_file_def is_file_def bind_err_Inr_iff
      split: option.splits node.splits)

lemma update_readme_files:
  assumes "update_readme L fs selected_image colors = Inr fs'"
  shows "is_file fs' q
           \<longleftrightarrow> is_file fs q \<or> (\<exists>c\<in>set colors. q = ''img/'' @ lstrip_hash c @ ''.png'')"
proof -
  from assms obtain content color_imgs fs1 bytes where
    rd: "read_text fs ''README.md'' = Inr content"
    and loop: "color_loop L fs colors [] = Inr (color_imgs, fs1)"
    and wr: "write_file fs1 ''README.md'' bytes = Inr fs'"
    by (auto simp: update_readme_def Let_def bind_err_Inr_iff split: if_splits)
  from read_text_is_file [OF rd] show ?thesis
    unfolding write_file_files [OF wr] color_loop_files [OF loop] by auto
qed

lemma copy_selected_image_files:
  assumes "copy_selected_image L fs selected_image = Inr fs'"
    and "\<not> is_dir fs ''cropped.jpg''"
  shows "is_file fs' q \<longleftrightarrow> is_file fs q \<or> q = ''cropped.jpg''"
proof -
  from assms obtain bytes where wr: "write_file fs ''cropped.jpg'' bytes = Inr fs'"
    by (auto simp: copy_selected_image_def copy2_def Let_def bind_err_Inr_iff
        split: if_splits option.splits)
  then show ?thesis
    by (rule write_file_files)
qed

text \<open>
  Claim C5, as amended. After a run that ends without an exception, with \<open>cropped.jpg\<close>
  not a directory beforehand and a clustering that returns five centers, the palette has
  five colours and the regular files are exactly those from before the run, the one output
  image \<open>cropped.jpg\<close> and the swatch files \<open>img/<hexdigits>.png\<close> of the palette colours:
  the run adds nothing else and removes nothing. Under \<open>img/\<close> the files are exactly those
  from before together with the palette's swatches, so there are exactly five of them when
  none was there before and the five colours give five different paths; swatches of
  earlier palettes stay, and colours that coincide share one file.
\<close>

theorem main_outputs:
  assumes "main L current_month r fs = Inr (selected_image, colors, fs')"
    and "\<not> is_dir fs ''cropped.jpg''"
    and "\<forall>data. length (kmeans L 5 data) = 5"
  shows "is_file fs' ''cropped.jpg''
       \<and> length colors = 5
       \<and> (\<forall>c\<in>set colors. is_file fs' (''img/'' @ lstrip_hash c @ ''.png''))
       \<and> (\<forall>p. is_file fs' p
               \<longleftrightarrow> is_file fs p \<or> p = ''cropped.jpg''
                   \<or> (\<exists>c\<in>set colors. p = ''img/'' @ lstrip_hash c @ ''.png''))
       \<and> (\<forall>p. startswith p ''img/'' \<longrightarrow>
               (is_file fs' p
                 \<longleftrightarrow> is_file fs p \<or> (\<exists>c\<in>set colors. p = ''img/'' @ lstrip_hash c @ ''.png'')))
       \<and> ((\<forall>p. startswith p ''img/'' \<longrightarrow> \<not> is_file fs p)
            \<and> distinct (map (\<lambda>c. ''img/'' @ lstrip_hash c @ ''.png'') colors)
            \<longrightarrow> card {p. startswith p ''img/'' \<and> is_file fs' p} = 5)"
proof -
  from assms(1) obtain images fs1 where
    cp: "copy_selected_image L fs selected_image = Inr fs1"
    and ex: "extract_dominant_colors L fs1 (path_join ''Waifu'' selected_image) 5 = Inr colors"
    and up: "update_readme L fs1 ''cropped.jpg'' colors = Inr fs'"
    by (auto simp: main_def Let_def bind_err_Inr_iff split: if_splits)
  have files: "is_file fs' p
               \<longleftrightarrow> is_file fs p \<or> p = ''cropped.jpg''
                   \<or> (\<exists>c\<in>set colors. p = ''img/'' @ lstrip_hash c @ ''.png'')" for p
    by (simp only: update_readme_files [OF up] copy_selected_image_files [OF cp assms(2)] disj_assoc)
  have crop: "\<not> startswith ''cropped.jpg'' ''img/''"
    by (simp add: startswith_def)
  from extract_dominant_colors_length [OF ex] assms(3) have "length colors = 5"
    by auto
  moreover from files have "is_file fs' ''cropped.jpg''"
    by blast
  moreover from files have "\<forall>c\<in>set colors. is_file fs' (''img/'' @ lstrip_hash c @ ''.png'')"
    by blast
  moreover from files crop have "\<forall>p. startswith p ''img/'' \<longrightarrow>
               (is_file fs' p
                 \<longleftrightarrow> is_file fs p \<or> (\<exists>c\<in>set colors. p = ''img/'' @ lstrip_hash c @ ''.png''))"
    by blast
  moreover have "card {p. startswith p ''img/'' \<and> is_file fs' p} = 5"
    if none: "\<forall>p. startswith p ''img/'' \<longrightarrow> \<not> is_file fs p"
      and dist: "distinct (map (\<lambda>c. ''img/'' @ lstrip_hash c @ ''.png'') colors)"
  proof -
    have sw: "startswith (''img/'' @ x) ''img/''" for x
      by (simp add: startswith_def)
    have "{p. startswith p ''img/'' \<and> is_file fs' p}
        = set (map (\<lambda>c. ''img/'' @ lstrip_hash c @ ''.png'') colors)"
      using none crop sw by (auto simp only: files set_map)
    then have "card {p. startswith p ''img/'' \<and> is_file fs' p}
        = length (map (\<lambda>c. ''img/'' @ lstrip_hash c @ ''.png'') colors)"
      using dist by (simp only: distinct_card)
    with \<open>length colors = 5\<close> show ?thesis
      by simp
  qed
  ultimately show ?thesis
    using files by blast
qed

theorem main_outputs_witness:
  "\<not> is_dir example_fs ''cropped.jpg''
   \<and> (\<forall>data. length (kmeans example_libs 5 data) = 5)
   \<and> (\<exists>selected_image colors fs'.
         main example_libs 6 0 example_fs = Inr (selected_image, colors, fs')
         \<and> is_file fs' ''cropped.jpg''
         \<and> length colors = 5
         \<and> (\<forall>c\<in>set colors. is_file fs' (''img/'' @ lstrip_hash c @ ''.png''))
         \<and> (\<forall>p. is_file fs' p
               \<longleftrightarrow> is_file example_fs p \<or> p = ''cropped.jpg''
                   \<or> (\<exists>c\<in>set colors. p = ''img/'' @ lstrip_hash c @ ''.png''))
         \<and> (\<forall>p. startswith p ''img/'' \<longrightarrow>
               (is_file fs' p
                 \<longleftrightarrow> is_file example_fs p
                     \<or> (\<exists>c\<in>set colors. p = ''img/'' @ lstrip_hash c @ ''.png''))))"
proof -
  have 1: "\<not> is_dir example_fs ''cropped.jpg''"
    by code_simp
  have 2: "\<forall>data. length (kmeans example_libs 5 data) = 5"
    by (simp add: example_libs_def)
  have "case main example_libs 6 0 example_fs of Inl e \<Rightarrow> False | Inr run \<Rightarrow> True"
    by code_simp
  then obtain selected_image colors fs' where
    run: "main example_libs 6 0 example_fs = Inr (selected_image, colors, fs')"
    by (cases "main example_libs 6 0 example_fs") auto
  from main_outputs [OF run 1 2]
  have out: "is_file fs' ''cropped.jpg''
         \<and> length colors = 5
         \<and> (\<forall>c\<in>set colors. is_file fs' (''img/'' @ lstrip_hash c @ ''.png''))
         \<and> (\<forall>p. is_file fs' p
               \<longleftrightarrow> is_file example_fs p \<or> p = ''cropped.jpg''
                   \<or> (\<exists>c\<in>set colors. p = ''img/'' @ lstrip_hash c @ ''.png''))
         \<and> (\<forall>p. startswith p ''img/'' \<longrightarrow>
               (is_file fs' p
                 \<longleftrightarrow> is_file example_fs p
                     \<or> (\<exists>c\<in>set colors. p = ''img/'' @ lstrip_hash c @ ''.png'')))"
    by - (elim conjE, intro conjI, assumption+)
  have 3: "\<exists>selected_image colors fs'.
         main example_libs 6 0 example_fs = Inr (selected_image, colors, fs')
         \<and> is_file fs' ''cropped.jpg''
         \<and> length colors = 5
         \<and> (\<forall>c\<in>set colors. is_file fs' (''img/'' @ lstrip_hash c @ ''.png''))
         \<and> (\<forall>p. is_file fs' p
               \<longleftrightarrow> is_file example_fs p \<or> p = ''cropped.jpg''
                   \<or> (\<exists>c\<in>set colors. p = ''img/'' @ lstrip_hash c @ ''.png''))
         \<and> (\<forall>p. startswith p ''img/'' \<longrightarrow>
               (is_file fs' p
                 \<longleftrightarrow> is_file example_fs p
                     \<or> (\<exists>c\<in>set colors. p = ''img/'' @ lstrip_hash c @ ''.png'')))"
    by (rule exI [of _ selected_image], rule exI [of _ colors], rule exI [of _ fs'],
        rule conjI [OF run out])
  from 1 2 3 show ?thesis
    by (intro conjI)
qed

text \<open>
  The claim as first stated asks for exactly five swatch files after the run. Started on
  \<open>example_fs\<close>, the run succeeds with five colours, and afterwards six different paths
  under \<open>img\<close> are regular files: the five new swatches and \<open>img/123456.png\<close> from before.
\<close>

theorem main_stale_swatch_counterexample:
  "palette_of (main example_libs 6 0 example_fs)
     = [''#ff0000'', ''#0c00c8'', ''#0000ff'', ''#fefefe'', ''#000000'']
   \<and> is_file (final_fs (main example_libs 6 0 example_fs)) ''cropped.jpg''
   \<and> list_all (is_file (final_fs (main example_libs 6 0 example_fs)))
        [''img/ff0000.png'', ''img/0c00c8.png'', ''img/0000ff.png'', ''img/fefefe.png'',
         ''img/000000.png'', ''img/123456.png'']
   \<and> distinct [''img/ff0000.png'', ''img/0c00c8.png'', ''img/0000ff.png'', ''img/fefefe.png'',
         ''img/000000.png'', ''img/123456.png'']
   \<and> length [''img/ff0000.png'', ''img/0c00c8.png'', ''img/0000ff.png'', ''img/fefefe.png'',
         ''img/000000.png'', ''img/123456.png''] = 6"
  by code_simp

section \<open>Document Updater: the image line in the written document\<close>

lemma update_readme_run:
  assumes rd: "read_text fs ''README.md'' = Inr content"
    and loop: "color_loop L fs colors [] = Inr (color_imgs, fs1)"
  shows "update_readme L fs selected_image colors
    = Inr (fs1(''README.md'' \<mapsto>
             File (join_nl (palette_loop (split_nl (new_color_palette_line (map color_img colors)))
                              (replace_img_line (split_nl content)) 0 False []))))"
proof -
  from read_text_is_file [OF rd] have f: "is_file fs ''README.md''" .
  then have ex: "path_exists fs ''README.md''"
    by (auto simp: is_file_def path_exists_def split: option.splits)
  from color_loop_kept [OF loop] have imgs: "color_imgs = map color_img colors"
    and kept: "files_kept fs fs1"
    by simp_all
  from kept f have "is_file fs1 ''README.md''"
    by (simp add: files_kept_def)
  then have "\<not> is_dir fs1 ''README.md''"
    by (auto simp: is_file_def is_dir_def split: option.splits node.splits)
  then have wr: "write_file fs1 ''README.md'' bytes = Inr (fs1(''README.md'' \<mapsto> File bytes))"
    for bytes
    by (rule write_file_not_dir)
  show ?thesis
    unfolding update_readme_def Let_def
    by (simp only: ex rd loop imgs wr bind_err_def sum.case prod.case not_True_eq_False if_False)
qed

text \<open>
  Claim C6. Let \<open>README.md\<close> be readable with text \<open>content\<close> and let the swatches be written,
  leaving the file system \<open>fs1\<close>. Then \<open>update_readme\<close> returns \<open>fs1\<close> with \<open>README.md\<close>
  rewritten, and the text it writes is the palette pass run on these lines: when line \<open>i\<close>
  is the first line of \<open>content\<close> that contains \<open><img src="cropped.jpg"\<close>, the lines of
  \<open>content\<close> with line \<open>i\<close>, and only line \<open>i\<close>, overwritten by the fixed tag; when no line
  contains the pattern, the lines of \<open>content\<close> as they are.
\<close>

theorem update_readme_image_line:
  assumes "read_text fs ''README.md'' = Inr content"
    and "color_loop L fs colors [] = Inr (color_imgs, fs1)"
  shows "((\<forall>l\<in>set (split_nl content). \<not> str_in old_img_line_pattern l) \<longrightarrow>
            update_readme L fs selected_image colors
              = Inr (fs1(''README.md'' \<mapsto>
                  File (join_nl
                    (palette_loop (split_nl (new_color_palette_line (map color_img colors)))
                       (split_nl content) 0 False [])))))
       \<and> (\<forall>i<length (split_nl content).
            str_in old_img_line_pattern (split_nl content ! i)
            \<and> (\<forall>l\<in>set (take i (split_nl content)). \<not> str_in old_img_line_pattern l)
            \<longrightarrow> update_readme L fs selected_image colors
                  = Inr (fs1(''README.md'' \<mapsto>
                      File (join_nl
                        (palette_loop (split_nl (new_color_palette_line (map color_img colors)))
                           ((split_nl content)[i := new_img_line]) 0 False [])))))"
proof (intro conjI impI allI)
  assume "\<forall>l\<in>set (split_nl content). \<not> str_in old_img_line_pattern l"
  then have "replace_img_line (split_nl content) = split_nl content"
    by (rule replace_img_line_none)
  with update_readme_run [OF assms, of selected_image]
  show "update_readme L fs selected_image colors
              = Inr (fs1(''README.md'' \<mapsto>
                  File (join_nl
                    (palette_loop (split_nl (new_color_palette_line (map color_img colors)))
                       (split_nl content) 0 False []))))"
    by (simp only:)
next
  fix i
  assume "i < length (split_nl content)"
    and "str_in old_img_line_pattern (split_nl content ! i)
         \<and> (\<forall>l\<in>set (take i (split_nl content)). \<not> str_in old_img_line_pattern l)"
  then have "i < length (split_nl content)" "str_in old_img_line_pattern (split_nl content ! i)"
    and "\<forall>k<i. \<not> str_in old_img_line_pattern (split_nl content ! k)"
    by (simp_all add: all_set_conv_all_nth)
  then have "replace_img_line (split_nl content) = (split_nl content)[i := new_img_line]"
    by (rule replace_img_line_first)
  with update_readme_run [OF assms, of selected_image]
  show "update_readme L fs selected_image colors
                  = Inr (fs1(''README.md'' \<mapsto>
                      File (join_nl
                        (palette_loop (split_nl (new_color_palette_line (map color_img colors)))
                           ((split_nl content)[i := new_img_line]) 0 False []))))"
    by (simp only:)
qed

theorem update_readme_image_line_witness:
  \<open>read_text example_fs ''README.md''
     = Inr (join_nl [''# profile'', ''<img src="cropped.jpg" width="100">'',
                     ''<p align="center">'', ''old swatches'', ''</p>'', []])
   \<and> 1 < length (split_nl (join_nl [''# profile'', ''<img src="cropped.jpg" width="100">'',
                     ''<p align="center">'', ''old swatches'', ''</p>'', []]))
   \<and> str_in old_img_line_pattern
        (split_nl (join_nl [''# profile'', ''<img src="cropped.jpg" width="100">'',
                     ''<p align="center">'', ''old swatches'', ''</p>'', []]) ! 1)
   \<and> list_all (\<lambda>l. \<not> str_in old_img_line_pattern l)
        (take 1 (split_nl (join_nl [''# profile'', ''<img src="cropped.jpg" width="100">'',
                     ''<p align="center">'', ''old swatches'', ''</p>'', []])))
   \<and> (\<exists>color_imgs fs1.
         color_loop example_libs example_fs [''#ff0000''] [] = Inr (color_imgs, fs1)
         \<and> update_readme example_libs example_fs ''cropped.jpg'' [''#ff0000'']
           = Inr (fs1(''README.md'' \<mapsto>
               File (join_nl
                 (palette_loop (split_nl (new_color_palette_line (map color_img [''#ff0000''])))
                    ((split_nl (join_nl [''# profile'', ''<img src="cropped.jpg" width="100">'',
                        ''<p align="center">'', ''old swatches'', ''</p>'', []]))
                       [1 := new_img_line]) 0 False [])))))
   \<and> join_nl
         (palette_loop (split_nl (new_color_palette_line (map color_img [''#ff0000''])))
            ((split_nl (join_nl [''# profile'', ''<img src="cropped.jpg" width="100">'',
                ''<p align="center">'', ''old swatches'', ''</p>'', []]))
               [1 := new_img_line]) 0 False [])
     = join_nl [''# profile'', new_img_line, ''<p align="center">'', color_img ''#ff0000'',
                ''</p>'']\<close>
proof -
  let ?content = \<open>join_nl [''# profile'', ''<img src="cropped.jpg" width="100">'',
                     ''<p align="center">'', ''old swatches'', ''</p>'', []]\<close>
  have 1: "read_text example_fs ''README.md'' = Inr ?content"
    by code_simp
  have 2: "1 < length (split_nl ?content)"
    by code_simp
  have 3: "str_in old_img_line_pattern (split_nl ?content ! 1)"
    by code_simp
  have 4: "list_all (\<lambda>l. \<not> str_in old_img_line_pattern l) (take 1 (split_nl ?content))"
    by code_simp
  have "case color_loop example_libs example_fs [''#ff0000''] [] of
          Inl e \<Rightarrow> False | Inr run \<Rightarrow> True"
    by code_simp
  then obtain color_imgs fs1 where
    loop: "color_loop example_libs example_fs [''#ff0000''] [] = Inr (color_imgs, fs1)"
    by (cases "color_loop example_libs example_fs [''#ff0000''] []") auto
  from update_readme_image_line [OF 1 loop, of "''cropped.jpg''"] 2 3 4 [unfolded list_all_iff]
  have "update_readme example_libs example_fs ''cropped.jpg'' [''#ff0000'']
           = Inr (fs1(''README.md'' \<mapsto>
               File (join_nl
                 (palette_loop (split_nl (new_color_palette_line (map color_img [''#ff0000''])))
                    ((split_nl ?content)[1 := new_img_line]) 0 False []))))"
    by blast
  with loop have 5: "\<exists>color_imgs fs1.
         color_loop example_libs example_fs [''#ff0000''] [] = Inr (color_imgs, fs1)
         \<and> update_readme example_libs example_fs ''cropped.jpg'' [''#ff0000'']
           = Inr (fs1(''README.md'' \<mapsto>
               File (join_nl
                 (palette_loop (split_nl (new_color_palette_line (map color_img [''#ff0000''])))
                    ((split_nl ?content)[1 := new_img_line]) 0 False []))))"
    by blast
  have 6: \<open>join_nl
         (palette_loop (split_nl (new_color_palette_line (map color_img [''#ff0000''])))
            ((split_nl ?content)[1 := new_img_line]) 0 False [])
     = join_nl [''# profile'', new_img_line, ''<p align="center">'', color_img ''#ff0000'',
                ''</p>'']\<close>
    by code_simp
  from 1 2 3 4 5 6 show ?thesis
    by (intro conjI)
qed

end
